theory Spec2Isabelle
  imports Complex_Main
begin

section \<open>Data model of \<open>investpy_portfolio.StockPortfolio\<close>\<close>

text \<open>
  Python exceptions are values of the type \<open>error\<close>.  \<open>add_stock\<close> raises
  \<open>ValueError\<close> itself, \<open>current_price\<close> raises pandas' \<open>IndexError\<close> on an empty frame,
  the float product in \<open>gross_current_value\<close> raises \<open>OverflowError\<close> on an integer
  beyond the range of floats; the remaining constructors are what the external
  collaborators (the instrument catalogue behind \<open>Stock.validate\<close>, and
  \<open>investpy.get_historical_data\<close>) may raise.
\<close>

datatype error =
    ValueError string
  | IndexError string
  | KeyError string
  | RuntimeError string
  | ConnectionError string
  | OverflowError string

section \<open>Python floats\<close>

text \<open>
  A Python \<open>float\<close> is an IEEE 754 binary64 value: a finite number, an infinity or
  NaN.  A finite float is given by the real number it stands for; the two zeros, which
  \<open>==\<close> does not tell apart, are one value.
\<close>

datatype pyfloat = Finite real | PInf | NInf | NaN

text \<open>Rounding a real to the nearest integer, ties to the even one.\<close>

definition round_half_even :: "real \<Rightarrow> int" where
  "round_half_even y =
     (let f = \<lfloor>y\<rfloor>; d = y - of_int f
      in if d < 1 / 2 then f else if 1 / 2 < d then f + 1 else if even f then f else f + 1)"

text \<open>
  Rounding a real to binary64 (round to nearest, ties to even).  A number in
  \<open>[2^e, 2^(e+1))\<close> is rounded to a multiple of \<open>2^(e-52)\<close>, which gives 53 significant
  bits; below \<open>2^-1022\<close> the spacing stays \<open>2^-1074\<close> (subnormal numbers); a result of
  magnitude \<open>2^1024\<close> or more is an infinity.
\<close>

definition binary_exponent :: "real \<Rightarrow> int" where
  "binary_exponent x = \<lfloor>log 2 \<bar>x\<bar>\<rfloor>"

definition round_double :: "real \<Rightarrow> pyfloat" where
  "round_double x =
     (if x = 0 then Finite 0
      else let e = max (binary_exponent x) (- 1022);
               q = 2 powi (e - 52);
               r = of_int (round_half_even (x / q)) * q
           in if 2 ^ 1024 \<le> \<bar>r\<bar> then (if 0 < x then PInf else NInf) else Finite r)"

text \<open>The product of two floats: the exact product, rounded; IEEE rules at infinities and NaN.\<close>

fun fmul :: "pyfloat \<Rightarrow> pyfloat \<Rightarrow> pyfloat" where
  "fmul (Finite a) (Finite b) = round_double (a * b)"
| "fmul (Finite a) PInf = (if a = 0 then NaN else if 0 < a then PInf else NInf)"
| "fmul (Finite a) NInf = (if a = 0 then NaN else if 0 < a then NInf else PInf)"
| "fmul PInf (Finite b) = (if b = 0 then NaN else if 0 < b then PInf else NInf)"
| "fmul NInf (Finite b) = (if b = 0 then NaN else if 0 < b then NInf else PInf)"
| "fmul PInf PInf = PInf"
| "fmul PInf NInf = NInf"
| "fmul NInf PInf = NInf"
| "fmul NInf NInf = PInf"
| "fmul NaN b = NaN"
| "fmul a NaN = NaN"

text \<open>
  An \<open>int\<close> operand of a float product is converted first: the nearest float, and
  \<open>OverflowError\<close> when that is beyond the largest float.
\<close>

definition float_of_int :: "int \<Rightarrow> error + pyfloat" where
  "float_of_int n =
     (case round_double (of_int n) of
        Finite r \<Rightarrow> Inr (Finite r)
      | _ \<Rightarrow> Inl (OverflowError ''int too large to convert to float''))"

section \<open>The objects\<close>

text \<open>
  A \<open>Stock\<close> object: the five constructor arguments and the flag that \<open>validate()\<close>
  sets and \<open>add_stock\<close> reads (\<open>stock.valid is True\<close>).
\<close>

record stock =
  stock_name :: string
  stock_country :: string
  purchase_date :: string
  num_of_shares :: int
  cost_per_share :: pyfloat
  valid :: bool

text \<open>
  One record of the frame returned by \<open>investpy.get_historical_data\<close>: the index
  (\<open>Date\<close>, as the ordinal of the day) and the columns of the frame.
\<close>

record price_row =
  Date :: int
  Open :: pyfloat
  High :: pyfloat
  Low :: pyfloat
  Close :: pyfloat
  Volume :: int
  Currency :: string

type_synonym series = "price_row list"

text \<open>
  The row dictionary built by \<open>__get_stock_info\<close>: keys in insertion order, with
  values of the three Python types that occur.
\<close>

datatype pyval = PyStr string | PyInt int | PyFloat pyfloat

type_synonym info = "(string \<times> pyval) list"

text \<open>
  The portfolio object: \<open>_stocks\<close>, \<open>_stock_objs\<close> and \<open>data\<close>.  The frame
  \<open>pd.DataFrame(self._stocks)\<close> is a copy of the rows at the moment it is built, so it is
  the list of rows itself; \<open>None\<close> is \<open>None\<close>.
\<close>

record portfolio =
  stocks :: "info list"
  stock_objs :: "stock list"
  data :: "info list option"

text \<open>
  The collaborators are parameters of the model.  \<open>validate\<close> stands for
  \<open>Stock.validate\<close> (module \<open>Stock.py\<close> is outside the sources at hand): it either
  raises or returns the object with its flag set.  \<open>provider\<close> stands for
  \<open>investpy.get_historical_data(equity, country, from_date, to_date)\<close>: it either raises
  or returns a frame.  The string \<open>today\<close> stands for
  \<open>date.today().strftime("%d/%m/%Y")\<close>.
\<close>

type_synonym validate = "stock \<Rightarrow> error + stock"

type_synonym provider = "string \<Rightarrow> string \<Rightarrow> string \<Rightarrow> string \<Rightarrow> error + series"

section \<open>The operations\<close>

text \<open>
  Modelled from the spec: \<open>Stock.__init__\<close> of the module \<open>Stock.py\<close>, which is missing
  from the sources.  Construction stores the five arguments and performs no I/O; the
  flag is not yet set.  No theorem below depends on the initial value of the flag,
  since \<open>validate\<close> is arbitrary.
\<close>

definition Stock :: "string \<Rightarrow> string \<Rightarrow> string \<Rightarrow> int \<Rightarrow> pyfloat \<Rightarrow> stock" where
  "Stock name country purchased shares cost =
     \<lparr>stock_name = name, stock_country = country, purchase_date = purchased,
      num_of_shares = shares, cost_per_share = cost, valid = False\<rparr>"

text \<open>\<open>__init__\<close>: two empty lists and no frame.\<close>

definition StockPortfolio_init :: portfolio where
  "StockPortfolio_init = \<lparr>stocks = [], stock_objs = [], data = None\<rparr>"

text \<open>
  \<open>current_price\<close>: \<open>data.iloc[-1]['Close']\<close>.  On a frame without rows
  \<open>iloc[-1]\<close> raises \<open>IndexError\<close>.
\<close>

definition current_price :: "series \<Rightarrow> error + pyfloat" where
  "current_price data_frame =
     (if data_frame = [] then Inl (IndexError ''single positional indexer is out-of-bounds'')
      else Inr (Close (last data_frame)))"

text \<open>
  \<open>gross_current_value\<close>: \<open>float(current_price * num_of_shares)\<close>, with a float price
  and an \<open>int\<close> number of shares.  The product converts the \<open>int\<close>, which may raise, and
  multiplies as floats; \<open>float\<close> of a float is that float.
\<close>

definition gross_current_value :: "pyfloat \<Rightarrow> int \<Rightarrow> error + pyfloat" where
  "gross_current_value curr_price shares =
     (case float_of_int shares of
        Inl e \<Rightarrow> Inl e
      | Inr f \<Rightarrow> Inr (fmul curr_price f))"

text \<open>
  \<open>__get_stock_info\<close>: one provider round trip, then the row dictionary.  An
  exception of the provider, of \<open>current_price\<close> or of \<open>gross_current_value\<close> leaves
  the method at once.
\<close>

definition get_stock_info :: "provider \<Rightarrow> string \<Rightarrow> stock \<Rightarrow> error + info" where
  "get_stock_info get_historical_data today stock =
     (case get_historical_data (stock_name stock) (stock_country stock)
             (purchase_date stock) today of
        Inl e \<Rightarrow> Inl e
      | Inr data_frame \<Rightarrow>
          (case current_price data_frame of
             Inl e \<Rightarrow> Inl e
           | Inr curr_price \<Rightarrow>
               (case gross_current_value curr_price (num_of_shares stock) of
                  Inl e \<Rightarrow> Inl e
                | Inr gross \<Rightarrow>
                    Inr [(''stock_name'', PyStr (stock_name stock)),
                         (''stock_country'', PyStr (stock_country stock)),
                         (''purchase_date'', PyStr (purchase_date stock)),
                         (''num_of_shares'', PyInt (num_of_shares stock)),
                         (''cost_per_share'', PyFloat (cost_per_share stock)),
                         (''current_price'', PyFloat curr_price),
                         (''gross_current_value'', PyFloat gross)])))"

text \<open>
  \<open>add_stock\<close>.  The result is the object as the call leaves it, together with the
  exception raised, if any: what was assigned before a \<open>raise\<close> stays assigned.
\<close>

definition add_stock ::
  "validate \<Rightarrow> provider \<Rightarrow> string \<Rightarrow> portfolio \<Rightarrow>
     string \<Rightarrow> string \<Rightarrow> string \<Rightarrow> int \<Rightarrow> pyfloat \<Rightarrow> portfolio \<times> error option" where
  "add_stock validate get_historical_data today self name country purchased shares cost =
     (case validate (Stock name country purchased shares cost) of
        Inl e \<Rightarrow> (self, Some e)
      | Inr stock \<Rightarrow>
          if valid stock then
            (let self1 = self\<lparr>stock_objs := stock_objs self @ [stock]\<rparr> in
             case get_stock_info get_historical_data today stock of
               Inl e \<Rightarrow> (self1, Some e)
             | Inr info \<Rightarrow>
                 (let self2 = self1\<lparr>stocks := stocks self1 @ [info]\<rparr>
                  in (self2\<lparr>data := Some (stocks self2)\<rparr>, None)))
          else (self, Some (ValueError ''ERROR [0001]: The introduced Stock is not valid.'')))"

text \<open>The \<open>for\<close> loop of \<open>refresh\<close> over \<open>self._stock_objs\<close>.\<close>

fun refresh_loop :: "provider \<Rightarrow> string \<Rightarrow> portfolio \<Rightarrow> stock list \<Rightarrow> portfolio \<times> error option" where
  "refresh_loop get_historical_data today self [] = (self, None)"
| "refresh_loop get_historical_data today self (stock_obj # rest) =
     (case get_stock_info get_historical_data today stock_obj of
        Inl e \<Rightarrow> (self, Some e)
      | Inr info \<Rightarrow>
          refresh_loop get_historical_data today (self\<lparr>stocks := stocks self @ [info]\<rparr>) rest)"

text \<open>\<open>refresh\<close>: nothing happens without holdings; otherwise the rows are rebuilt.\<close>

definition refresh :: "provider \<Rightarrow> string \<Rightarrow> portfolio \<Rightarrow> portfolio \<times> error option" where
  "refresh get_historical_data today self =
     (if length (stock_objs self) > 0 then
        (case refresh_loop get_historical_data today (self\<lparr>stocks := []\<rparr>) (stock_objs self) of
           (self1, Some e) \<Rightarrow> (self1, Some e)
         | (self1, None) \<Rightarrow> (self1\<lparr>data := Some (stocks self1)\<rparr>, None))
      else (self, None))"

section \<open>The provider round trips of \<open>refresh\<close>\<close>

text \<open>
  A call of the provider is an effect.  The definitions of this section are
  \<open>__get_stock_info\<close> and \<open>refresh\<close> once more, returning next to their result the
  requests they sent to the provider, in the order they were sent: a request is the
  four arguments of \<open>investpy.get_historical_data\<close>.  The call of the provider is
  the first statement of \<open>__get_stock_info\<close>.
\<close>

type_synonym request = "string \<times> string \<times> string \<times> string"

definition get_stock_info_io ::
  "provider \<Rightarrow> string \<Rightarrow> stock \<Rightarrow> (error + info) \<times> request list" where
  "get_stock_info_io get_historical_data today stock =
     (case get_historical_data (stock_name stock) (stock_country stock)
             (purchase_date stock) today of
        Inl e \<Rightarrow>
          (Inl e, [(stock_name stock, stock_country stock, purchase_date stock, today)])
      | Inr data_frame \<Rightarrow>
          (case current_price data_frame of
             Inl e \<Rightarrow>
               (Inl e, [(stock_name stock, stock_country stock, purchase_date stock, today)])
           | Inr curr_price \<Rightarrow>
               (case gross_current_value curr_price (num_of_shares stock) of
                  Inl e \<Rightarrow>
                    (Inl e, [(stock_name stock, stock_country stock, purchase_date stock, today)])
                | Inr gross \<Rightarrow>
                    (Inr [(''stock_name'', PyStr (stock_name stock)),
                          (''stock_country'', PyStr (stock_country stock)),
                          (''purchase_date'', PyStr (purchase_date stock)),
                          (''num_of_shares'', PyInt (num_of_shares stock)),
                          (''cost_per_share'', PyFloat (cost_per_share stock)),
                          (''current_price'', PyFloat curr_price),
                          (''gross_current_value'', PyFloat gross)],
                     [(stock_name stock, stock_country stock, purchase_date stock, today)]))))"

fun refresh_loop_io ::
  "provider \<Rightarrow> string \<Rightarrow> portfolio \<Rightarrow> stock list \<Rightarrow>
     (portfolio \<times> error option) \<times> request list" where
  "refresh_loop_io get_historical_data today self [] = ((self, None), [])"
| "refresh_loop_io get_historical_data today self (stock_obj # rest) =
     (case get_stock_info_io get_historical_data today stock_obj of
        (Inl e, sent) \<Rightarrow> ((self, Some e), sent)
      | (Inr info, sent) \<Rightarrow>
          (case refresh_loop_io get_historical_data today
                  (self\<lparr>stocks := stocks self @ [info]\<rparr>) rest of
             (result, sent_later) \<Rightarrow> (result, sent @ sent_later)))"

definition refresh_io ::
  "provider \<Rightarrow> string \<Rightarrow> portfolio \<Rightarrow> (portfolio \<times> error option) \<times> request list" where
  "refresh_io get_historical_data today self =
     (if length (stock_objs self) > 0 then
        (case refresh_loop_io get_historical_data today (self\<lparr>stocks := []\<rparr>) (stock_objs self) of
           ((self1, Some e), sent) \<Rightarrow> ((self1, Some e), sent)
         | ((self1, None), sent) \<Rightarrow> ((self1\<lparr>data := Some (stocks self1)\<rparr>, None), sent))
      else ((self, None), []))"

section \<open>Sequences of calls\<close>

text \<open>
  A caller issues \<open>add_stock\<close> and \<open>refresh\<close> calls one after the other on the same
  object; each call comes with the collaborators and the date as they are at that
  moment.  A caller that catches an exception goes on with the object as the failed
  call left it.
\<close>

datatype call =
    AddStock validate provider string string string string int pyfloat
  | Refresh provider string

fun step :: "portfolio \<Rightarrow> call \<Rightarrow> portfolio \<times> error option" where
  "step self (AddStock validate get_historical_data today name country purchased shares cost) =
     add_stock validate get_historical_data today self name country purchased shares cost"
| "step self (Refresh get_historical_data today) = refresh get_historical_data today self"

fun run :: "portfolio \<Rightarrow> call list \<Rightarrow> portfolio" where
  "run self [] = self"
| "run self (c # cs) = run (fst (step self c)) cs"

fun outcomes :: "portfolio \<Rightarrow> call list \<Rightarrow> error option list" where
  "outcomes self [] = []"
| "outcomes self (c # cs) = snd (step self c) # outcomes (fst (step self c)) cs"

fun is_add_stock :: "call \<Rightarrow> bool" where
  "is_add_stock (AddStock validate get_historical_data today name country purchased shares cost) = True"
| "is_add_stock (Refresh get_historical_data today) = False"

text \<open>The row an \<open>add_stock\<close> call computes, when validation and fetch both succeed.\<close>

fun call_row :: "call \<Rightarrow> info option" where
  "call_row (AddStock validate get_historical_data today name country purchased shares cost) =
     (case validate (Stock name country purchased shares cost) of
        Inl e \<Rightarrow> None
      | Inr stock \<Rightarrow>
          (case get_stock_info get_historical_data today stock of
             Inl e \<Rightarrow> None
           | Inr info \<Rightarrow> Some info))"
| "call_row (Refresh get_historical_data today) = None"

text \<open>
  A call builds the frame when it returns normally with a holding on the list: an
  \<open>add_stock\<close> that returns, or a \<open>refresh\<close> that returns on a non-empty list of
  holdings.  A sequence of calls is \<open>quiet\<close> when none of its calls does.
\<close>

fun builds_snapshot :: "portfolio \<Rightarrow> call \<Rightarrow> bool" where
  "builds_snapshot self (AddStock validate get_historical_data today name country purchased shares cost) =
     (snd (add_stock validate get_historical_data today self name country purchased shares cost) = None)"
| "builds_snapshot self (Refresh get_historical_data today) =
     (stock_objs self \<noteq> [] \<and> snd (refresh get_historical_data today self) = None)"

fun quiet :: "portfolio \<Rightarrow> call list \<Rightarrow> bool" where
  "quiet self [] = True"
| "quiet self (c # cs) = (\<not> builds_snapshot self c \<and> quiet (fst (step self c)) cs)"

section \<open>Rows and holdings in lockstep\<close>

text \<open>
  The dictionary \<open>__get_stock_info\<close> builds for a holding at a given current price
  (none when the product raises), the price stored in a row, and the relation "this
  row was computed from this holding" (at the price the row stores).
\<close>

definition row_of :: "stock \<Rightarrow> pyfloat \<Rightarrow> info option" where
  "row_of stock curr_price =
     (case gross_current_value curr_price (num_of_shares stock) of
        Inl e \<Rightarrow> None
      | Inr gross \<Rightarrow>
          Some [(''stock_name'', PyStr (stock_name stock)),
                (''stock_country'', PyStr (stock_country stock)),
                (''purchase_date'', PyStr (purchase_date stock)),
                (''num_of_shares'', PyInt (num_of_shares stock)),
                (''cost_per_share'', PyFloat (cost_per_share stock)),
                (''current_price'', PyFloat curr_price),
                (''gross_current_value'', PyFloat gross)])"

definition row_price :: "info \<Rightarrow> pyfloat option" where
  "row_price info =
     (case map_of info ''current_price'' of
        Some (PyFloat c) \<Rightarrow> Some c
      | _ \<Rightarrow> None)"

definition computed_from :: "stock \<Rightarrow> info \<Rightarrow> bool" where
  "computed_from stock info =
     (case row_price info of None \<Rightarrow> False | Some c \<Rightarrow> row_of stock c = Some info)"

definition lockstep :: "portfolio \<Rightarrow> bool" where
  "lockstep self = list_all2 computed_from (stock_objs self) (stocks self)"

text \<open>
  What the loop of \<open>refresh\<close> collects from a list of holdings: the rows up to the
  first failing fetch, and that failure.
\<close>

fun fetch_rows :: "provider \<Rightarrow> string \<Rightarrow> stock list \<Rightarrow> info list \<times> error option" where
  "fetch_rows get_historical_data today [] = ([], None)"
| "fetch_rows get_historical_data today (stock_obj # rest) =
     (case get_stock_info get_historical_data today stock_obj of
        Inl e \<Rightarrow> ([], Some e)
      | Inr info \<Rightarrow>
          (case fetch_rows get_historical_data today rest of
             (rows, r) \<Rightarrow> (info # rows, r)))"

section \<open>Concrete collaborators\<close>

text \<open>
  A catalogue that knows the instrument ACME, a provider with two trading days for
  it, a provider that has no rows, and a provider whose round trip fails.
\<close>

definition acme_validate :: validate where
  "acme_validate stock = Inr (stock\<lparr>valid := (stock_name stock = ''ACME'')\<rparr>)"

definition acme_series :: series where
  "acme_series =
     [\<lparr>Date = 737425, Open = Finite 98, High = Finite 101, Low = Finite 97, Close = Finite 100,
       Volume = 10, Currency = ''USD''\<rparr>,
      \<lparr>Date = 737426, Open = Finite 100, High = Finite 151, Low = Finite 99, Close = Finite 150,
       Volume = 12, Currency = ''USD''\<rparr>]"

definition acme_provider :: provider where
  "acme_provider equity country from_date to_date = Inr acme_series"

definition empty_provider :: provider where
  "empty_provider equity country from_date to_date = Inr []"

definition down_provider :: provider where
  "down_provider equity country from_date to_date = Inl (ConnectionError ''no connection'')"

definition acme :: stock where
  "acme = \<lparr>stock_name = ''ACME'', stock_country = ''US'', purchase_date = ''01/01/2020'',
           num_of_shares = 10, cost_per_share = Finite 100, valid = True\<rparr>"

definition acme_row :: info where
  "acme_row =
     [(''stock_name'', PyStr ''ACME''),
      (''stock_country'', PyStr ''US''),
      (''purchase_date'', PyStr ''01/01/2020''),
      (''num_of_shares'', PyInt 10),
      (''cost_per_share'', PyFloat (Finite 100)),
      (''current_price'', PyFloat (Finite 150)),
      (''gross_current_value'', PyFloat (Finite 1500))]"

definition add_acme :: "provider \<Rightarrow> call" where
  "add_acme get_historical_data =
     AddStock acme_validate get_historical_data ''04/11/2026'' ''ACME'' ''US'' ''01/01/2020'' 10 (Finite 100)"

definition acme_portfolio :: portfolio where
  "acme_portfolio = \<lparr>stocks = [acme_row], stock_objs = [acme], data = Some [acme_row]\<rparr>"

text \<open>
  A second purchase of ACME, the portfolio with both purchases, and a provider that has
  rows for the first purchase date only.
\<close>

definition acme_later :: stock where
  "acme_later = \<lparr>stock_name = ''ACME'', stock_country = ''US'', purchase_date = ''02/03/2021'',
                 num_of_shares = 3, cost_per_share = Finite 120, valid = True\<rparr>"

definition acme_later_row :: info where
  "acme_later_row =
     [(''stock_name'', PyStr ''ACME''),
      (''stock_country'', PyStr ''US''),
      (''purchase_date'', PyStr ''02/03/2021''),
      (''num_of_shares'', PyInt 3),
      (''cost_per_share'', PyFloat (Finite 120)),
      (''current_price'', PyFloat (Finite 150)),
      (''gross_current_value'', PyFloat (Finite 450))]"

definition add_acme_later :: "provider \<Rightarrow> call" where
  "add_acme_later get_historical_data =
     AddStock acme_validate get_historical_data ''05/11/2026'' ''ACME'' ''US'' ''02/03/2021'' 3 (Finite 120)"

definition two_purchases :: portfolio where
  "two_purchases =
     \<lparr>stocks = [acme_row, acme_later_row], stock_objs = [acme, acme_later],
      data = Some [acme_row, acme_later_row]\<rparr>"

definition first_purchase_provider :: provider where
  "first_purchase_provider equity country from_date to_date =
     (if from_date = ''01/01/2020'' then Inr acme_series else Inr [])"

section \<open>Facts about floats\<close>

lemma two_powr_powi: "(2::real) powr real_of_int k = 2 powi k"
  by (rule powr_real_of_int') simp_all

lemma binary_exponent_bounds:
  assumes "x \<noteq> 0"
  shows "2 powi (binary_exponent x) \<le> \<bar>x\<bar>" and "\<bar>x\<bar> < 2 powi (binary_exponent x + 1)"
proof -
  have pos: "0 < \<bar>x\<bar>" using assms by simp
  have "\<lfloor>log 2 \<bar>x\<bar>\<rfloor> = binary_exponent x"
    by (simp add: binary_exponent_def)
  then have "2 powr real_of_int (binary_exponent x) \<le> \<bar>x\<bar> \<and>
             \<bar>x\<bar> < 2 powr real_of_int (binary_exponent x + 1)"
    using floor_log_eq_powr_iff [OF pos, of 2 "binary_exponent x"] by simp
  then show "2 powi (binary_exponent x) \<le> \<bar>x\<bar>" and "\<bar>x\<bar> < 2 powi (binary_exponent x + 1)"
    by (simp_all only: two_powr_powi)
qed

lemma binary_exponent_eqI:
  assumes "2 powi e \<le> \<bar>x\<bar>" and "\<bar>x\<bar> < 2 powi (e + 1)"
  shows "binary_exponent x = e"
proof -
  have "0 < (2::real) powi e" by simp
  with assms have pos: "0 < \<bar>x\<bar>" by linarith
  have "2 powr real_of_int e \<le> \<bar>x\<bar> \<and> \<bar>x\<bar> < 2 powr real_of_int (e + 1)"
    using assms by (simp only: two_powr_powi)
  then show ?thesis
    using floor_log_eq_powr_iff [OF pos, of 2 e] by (simp add: binary_exponent_def)
qed

lemma round_half_even_of_int [simp]: "round_half_even (of_int m) = m"
  by (simp add: round_half_even_def)

lemma round_half_even_cases:
  "round_half_even y = \<lfloor>y\<rfloor> \<and> y - of_int \<lfloor>y\<rfloor> \<le> 1 / 2 \<or>
   round_half_even y = \<lfloor>y\<rfloor> + 1 \<and> 1 / 2 \<le> y - of_int \<lfloor>y\<rfloor>"
proof -
  consider "y - of_int \<lfloor>y\<rfloor> < 1 / 2" | "1 / 2 < y - of_int \<lfloor>y\<rfloor>"
    | "y - of_int \<lfloor>y\<rfloor> = 1 / 2"
    by linarith
  then show ?thesis
  proof cases
    case 1
    then have "round_half_even y = \<lfloor>y\<rfloor>"
      unfolding round_half_even_def Let_def by (simp only: if_True)
    with 1 show ?thesis by simp
  next
    case 2
    then have "\<not> y - of_int \<lfloor>y\<rfloor> < 1 / 2" by simp
    with 2 have "round_half_even y = \<lfloor>y\<rfloor> + 1"
      unfolding round_half_even_def Let_def by (simp only: if_True if_False)
    with 2 show ?thesis by simp
  next
    case 3
    then have n1: "\<not> y - of_int \<lfloor>y\<rfloor> < 1 / 2" and n2: "\<not> 1 / 2 < y - of_int \<lfloor>y\<rfloor>"
      by simp_all
    have "round_half_even y = (if even \<lfloor>y\<rfloor> then \<lfloor>y\<rfloor> else \<lfloor>y\<rfloor> + 1)"
      unfolding round_half_even_def Let_def using n1 n2 by (simp only: if_False)
    with 3 show ?thesis by (cases "even \<lfloor>y\<rfloor>") simp_all
  qed
qed

lemma round_half_even_upper: "of_int (round_half_even y) \<le> y + 1 / 2"
proof -
  have fl: "real_of_int \<lfloor>y\<rfloor> \<le> y"
    by linarith
  from round_half_even_cases [of y]
  consider (down) "round_half_even y = \<lfloor>y\<rfloor>"
    | (up) "round_half_even y = \<lfloor>y\<rfloor> + 1" "1 / 2 \<le> y - of_int \<lfloor>y\<rfloor>"
    by blast
  then show ?thesis
  proof cases
    case down
    then have "real_of_int (round_half_even y) = real_of_int \<lfloor>y\<rfloor>" by simp
    with fl show ?thesis by linarith
  next
    case up
    then have "real_of_int (round_half_even y) = real_of_int \<lfloor>y\<rfloor> + 1" by simp
    with up(2) show ?thesis by linarith
  qed
qed

lemma round_half_even_lower: "y - 1 / 2 \<le> of_int (round_half_even y)"
proof -
  have fl: "y < real_of_int \<lfloor>y\<rfloor> + 1"
    by linarith
  from round_half_even_cases [of y]
  consider (down) "round_half_even y = \<lfloor>y\<rfloor>" "y - of_int \<lfloor>y\<rfloor> \<le> 1 / 2"
    | (up) "round_half_even y = \<lfloor>y\<rfloor> + 1"
    by blast
  then show ?thesis
  proof cases
    case down
    then have "real_of_int (round_half_even y) = real_of_int \<lfloor>y\<rfloor>" by simp
    with down(2) show ?thesis by linarith
  next
    case up
    then have "real_of_int (round_half_even y) = real_of_int \<lfloor>y\<rfloor> + 1" by simp
    with fl show ?thesis by linarith
  qed
qed

lemma round_half_even_ge_int: "of_int m \<le> y \<Longrightarrow> m \<le> round_half_even y"
proof -
  assume "of_int m \<le> y"
  then have "m \<le> \<lfloor>y\<rfloor>" by (simp add: le_floor_iff)
  then show ?thesis
    by (auto simp: round_half_even_def Let_def)
qed

lemma round_half_even_le_int: "y \<le> of_int m \<Longrightarrow> round_half_even y \<le> m"
proof -
  assume a: "y \<le> of_int m"
  show ?thesis
  proof (cases "y = of_int m")
    case True
    then show ?thesis by simp
  next
    case False
    with a have "y < of_int m" by simp
    then have "\<lfloor>y\<rfloor> < m" by (simp add: floor_less_iff)
    then show ?thesis
      by (auto simp: round_half_even_def Let_def)
  qed
qed


lemma two_powi_less_cancel: "(2::real) powi a < 2 powi b \<Longrightarrow> a < b"
proof (rule ccontr)
  assume lt: "(2::real) powi a < 2 powi b" and "\<not> a < b"
  then have "b \<le> a" by simp
  then have "(2::real) powi b \<le> 2 powi a"
    by (intro power_int_increasing) simp_all
  with lt show False by simp
qed

lemma two_powi_le_mono: "a \<le> b \<Longrightarrow> (2::real) powi a \<le> 2 powi b"
  by (intro power_int_increasing) simp_all

lemma two_powi_div: "(2::real) powi a / 2 powi b = 2 powi (a - b)"
  by (simp add: power_int_diff)

lemma two_powi_nonneg_int: "0 \<le> n \<Longrightarrow> (2::real) powi n = of_int (2 ^ nat n)"
  by (simp add: power_int_def)

lemma round_double_representable:
  assumes m: "\<bar>m\<bar> < 2 ^ 53" and k: "- 1074 \<le> k"
    and range: "\<bar>of_int m * 2 powi k\<bar> < (2::real) ^ 1024"
  shows "round_double (of_int m * 2 powi k) = Finite (of_int m * 2 powi k)"
proof (cases "m = 0")
  case True
  then show ?thesis by (simp add: round_double_def)
next
  case False
  define x :: real where "x = of_int m * 2 powi k"
  define e where "e = max (binary_exponent x) (- 1022)"
  have x0: "x \<noteq> 0" using False by (simp add: x_def)
  have ek: "e - 52 \<le> k"
  proof (cases "binary_exponent x \<le> - 1022")
    case True
    then show ?thesis using k by (simp add: e_def)
  next
    case False
    then have ee: "e = binary_exponent x" by (simp add: e_def)
    have "\<bar>x\<bar> = of_int \<bar>m\<bar> * 2 powi k"
      by (simp add: x_def abs_mult)
    also have "\<dots> < of_int (2 ^ 53) * 2 powi k"
      using m by (intro mult_strict_right_mono) simp_all
    also have "\<dots> = 2 powi (53 + k)"
      by (simp add: power_int_add)
    finally have "\<bar>x\<bar> < 2 powi (53 + k)" .
    with binary_exponent_bounds(1) [OF x0] have "(2::real) powi e < 2 powi (53 + k)"
      by (simp add: ee)
    then have "e < 53 + k" by (rule two_powi_less_cancel)
    then show ?thesis by simp
  qed
  have "x / 2 powi (e - 52) = of_int m * (2 powi k / 2 powi (e - 52))"
    by (simp add: x_def)
  also have "\<dots> = of_int m * 2 powi (k - (e - 52))"
    by (simp only: two_powi_div)
  also have "\<dots> = of_int (m * 2 ^ nat (k - (e - 52)))"
    using ek by (simp add: two_powi_nonneg_int)
  finally have q: "x / 2 powi (e - 52) = of_int (m * 2 ^ nat (k - (e - 52)))" .
  have "of_int (round_half_even (x / 2 powi (e - 52))) * 2 powi (e - 52) = x / 2 powi (e - 52) * 2 powi (e - 52)"
    by (simp only: q round_half_even_of_int)
  also have "\<dots> = x" by simp
  finally have r: "of_int (round_half_even (x / 2 powi (e - 52))) * 2 powi (e - 52) = x" .
  have "round_double x = Finite x"
    using x0 range r by (simp add: round_double_def Let_def e_def [symmetric] x_def [symmetric])
  then show ?thesis by (simp add: x_def)
qed

lemma two_powi_shift: "(2::real) ^ n * 2 powi (e - int n) = 2 powi e"
proof -
  have "(2::real) ^ n = 2 powi int n" by simp
  then have "(2::real) ^ n * 2 powi (e - int n) = 2 powi int n * 2 powi (e - int n)"
    by (simp only:)
  also have "\<dots> = 2 powi (int n + (e - int n))"
    by (rule power_int_add [symmetric]) simp
  finally show ?thesis by simp
qed

lemma round_half_even_tie_up:
  assumes "of_int m - 1 / 2 \<le> y" and "even m"
  shows "m \<le> round_half_even y"
proof -
  have f: "m - 1 \<le> \<lfloor>y\<rfloor>"
    using assms(1) by (simp add: le_floor_iff)
  show ?thesis
  proof (cases "m \<le> \<lfloor>y\<rfloor>")
    case True
    then show ?thesis by (auto simp: round_half_even_def Let_def)
  next
    case False
    with f have eq: "\<lfloor>y\<rfloor> = m - 1" by simp
    with assms(2) have "odd \<lfloor>y\<rfloor>" by simp
    moreover have "1 / 2 \<le> y - of_int \<lfloor>y\<rfloor>"
      using assms(1) eq by simp
    ultimately show ?thesis
      using eq by (auto simp: round_half_even_def Let_def)
  qed
qed

lemma round_double_overflow:
  assumes big: "2 ^ 1024 - 2 ^ 970 \<le> x"
  shows "round_double x = PInf"
proof -
  define e where "e = binary_exponent x"
  define q :: real where "q = 2 powi (e - 52)"
  define r :: real where "r = of_int (round_half_even (x / q)) * q"
  have "(2::real) ^ 1023 \<le> 2 ^ 1024 - 2 ^ 970" by simp
  with big have x1023: "(2::real) powi 1023 \<le> x" by simp
  have "(0::real) < 2 powi 1023" by simp
  with x1023 have pos: "0 < x" by linarith
  then have x0: "x \<noteq> 0" and ax: "\<bar>x\<bar> = x" by simp_all
  have lo: "2 powi e \<le> x" and hi: "x < 2 powi (e + 1)"
    using binary_exponent_bounds [OF x0] by (simp_all add: e_def ax)
  from x1023 hi have "(2::real) powi 1023 < 2 powi (e + 1)" by linarith
  then have e1023: "1023 \<le> e" using two_powi_less_cancel by fastforce
  have qpos: "0 < q" by (simp add: q_def)
  have rbig: "2 ^ 1024 \<le> r"
  proof (cases "e = 1023")
    case True
    then have q971: "q = 2 ^ 971" by (simp add: q_def)
    have "(2::real) ^ 1024 - 2 ^ 970 = (of_int (2 ^ 53) - 1 / 2) * 2 ^ 971"
      by simp
    with big have "(of_int (2 ^ 53) - 1 / 2) * q \<le> x" by (simp only: q971)
    then have "of_int (2 ^ 53) - 1 / 2 \<le> x / q"
      using qpos by (simp add: pos_le_divide_eq)
    then have "2 ^ 53 \<le> round_half_even (x / q)"
      by (rule round_half_even_tie_up) simp
    then have "of_int (2 ^ 53) \<le> (of_int (round_half_even (x / q)) :: real)"
      by (simp only: of_int_le_iff)
    then have "of_int (2 ^ 53) * q \<le> r"
      unfolding r_def using qpos by (intro mult_right_mono) simp_all
    then show ?thesis by (simp add: q971)
  next
    case False
    with e1023 have e1024: "1024 \<le> e" by simp
    have p52: "of_int (2 ^ 52) * q = 2 powi e"
      using two_powi_shift [of 52 e] by (simp add: q_def)
    with lo have "of_int (2 ^ 52) * q \<le> x" by simp
    then have "of_int (2 ^ 52) \<le> x / q"
      using qpos by (simp add: pos_le_divide_eq)
    then have "2 ^ 52 \<le> round_half_even (x / q)"
      by (rule round_half_even_ge_int)
    then have "of_int (2 ^ 52) \<le> (of_int (round_half_even (x / q)) :: real)"
      by (simp only: of_int_le_iff)
    then have "of_int (2 ^ 52) * q \<le> r"
      unfolding r_def using qpos by (intro mult_right_mono) simp_all
    moreover note p52
    moreover have "(2::real) powi 1024 \<le> 2 powi e"
      using e1024 by (rule two_powi_le_mono)
    ultimately show ?thesis by simp
  qed
  have "(0::real) < 2 ^ 1024" by simp
  with rbig have "2 ^ 1024 \<le> \<bar>r\<bar>" by linarith
  moreover have "max (binary_exponent x) (- 1022) = e"
    using e1023 by (simp add: e_def)
  ultimately show ?thesis
    using x0 pos by (simp add: round_double_def Let_def q_def [symmetric] r_def [symmetric])
qed

lemma round_double_in_range:
  assumes pos: "0 < x" and small: "x < 2 ^ 1024 - 2 ^ 970"
  shows "\<exists>r. round_double x = Finite r \<and> 0 \<le> r \<and> r < 2 ^ 1024"
proof -
  define e where "e = max (binary_exponent x) (- 1022)"
  define q :: real where "q = 2 powi (e - 52)"
  define r :: real where "r = of_int (round_half_even (x / q)) * q"
  from pos have x0: "x \<noteq> 0" and ax: "\<bar>x\<bar> = x" by simp_all
  have lo: "2 powi (binary_exponent x) \<le> x" and hi: "x < 2 powi (binary_exponent x + 1)"
    using binary_exponent_bounds [OF x0] by (simp_all add: ax)
  have "x < (2::real) powi 1024" using small by simp
  with lo have "(2::real) powi (binary_exponent x) < 2 powi 1024" by linarith
  then have "binary_exponent x < 1024" by (rule two_powi_less_cancel)
  then have e1023: "e \<le> 1023" by (simp add: e_def)
  have qpos: "0 < q" by (simp add: q_def)
  have "0 \<le> x / q" using pos qpos by simp
  then have "0 \<le> round_half_even (x / q)"
    using round_half_even_ge_int [of 0 "x / q"] by simp
  then have r0: "0 \<le> r" using qpos by (simp add: r_def)
  have hi': "x < 2 powi (e + 1)"
  proof -
    have "(2::real) powi (binary_exponent x + 1) \<le> 2 powi (e + 1)"
      by (rule two_powi_le_mono) (simp add: e_def)
    with hi show ?thesis by linarith
  qed
  have rsmall: "r < 2 ^ 1024"
  proof (cases "e = 1023")
    case True
    then have q971: "q = 2 ^ 971" by (simp add: q_def)
    have "(2::real) ^ 1024 - 2 ^ 970 = (of_int (2 ^ 53) - 1 / 2) * 2 ^ 971"
      by simp
    with small have "x < (of_int (2 ^ 53) - 1 / 2) * q" by (simp only: q971)
    then have "x / q < of_int (2 ^ 53) - 1 / 2"
      using qpos by (simp add: pos_divide_less_eq)
    with round_half_even_upper [of "x / q"]
    have "(of_int (round_half_even (x / q)) :: real) < of_int (2 ^ 53)" by linarith
    then have "round_half_even (x / q) < 2 ^ 53" by (simp only: of_int_less_iff)
    then have "round_half_even (x / q) \<le> 2 ^ 53 - 1" by simp
    then have "(of_int (round_half_even (x / q)) :: real) \<le> of_int (2 ^ 53 - 1)"
      by (simp only: of_int_le_iff)
    then have "r \<le> of_int (2 ^ 53 - 1) * q"
      unfolding r_def using qpos by (intro mult_right_mono) simp_all
    also have "\<dots> < 2 ^ 1024" by (simp add: q971)
    finally show ?thesis .
  next
    case False
    with e1023 have e1022: "e \<le> 1022" by simp
    have pq: "of_int (2 ^ 53) * q = 2 powi (e + 1)"
      using two_powi_shift [of 53 "e + 1"] by (simp add: q_def)
    with hi' have "x < of_int (2 ^ 53) * q" by simp
    then have "x / q \<le> of_int (2 ^ 53)"
      using qpos by (simp add: pos_divide_le_eq)
    then have "round_half_even (x / q) \<le> 2 ^ 53"
      by (rule round_half_even_le_int)
    then have "(of_int (round_half_even (x / q)) :: real) \<le> of_int (2 ^ 53)"
      by (simp only: of_int_le_iff)
    then have "r \<le> of_int (2 ^ 53) * q"
      unfolding r_def using qpos by (intro mult_right_mono) simp_all
    also have "\<dots> = 2 powi (e + 1)" by (rule pq)
    also have "\<dots> \<le> 2 powi 1023"
      using e1022 by (intro two_powi_le_mono) simp
    also have "\<dots> < (2::real) ^ 1024" by simp
    finally show ?thesis .
  qed
  from r0 rsmall have "\<not> 2 ^ 1024 \<le> \<bar>r\<bar>" by simp
  then have "round_double x = Finite r"
    using x0 by (simp add: round_double_def Let_def e_def [symmetric] q_def [symmetric] r_def [symmetric])
  with r0 rsmall show ?thesis by blast
qed

lemma round_double_of_int:
  assumes "\<bar>n\<bar> \<le> 2 ^ 53"
  shows "round_double (of_int n) = Finite (of_int n)"
proof (cases "\<bar>n\<bar> < 2 ^ 53")
  case True
  then have "\<bar>real_of_int n\<bar> < 2 ^ 53"
    by (metis of_int_abs of_int_less_numeral_power_cancel_iff)
  also have "\<dots> \<le> (2::real) ^ 1024"
    by (intro power_increasing) simp_all
  finally have "\<bar>of_int n * 2 powi 0\<bar> < (2::real) ^ 1024" by simp
  from round_double_representable [OF True _ this] show ?thesis by simp
next
  case False
  with assms have "\<bar>n\<bar> = 2 ^ 53" by simp
  then consider "n = 2 ^ 53" | "n = - (2 ^ 53)" by linarith
  then show ?thesis
  proof cases
    case 1
    have "round_double (of_int 1 * 2 powi 53) = Finite (of_int 1 * 2 powi 53)"
      by (rule round_double_representable) simp_all
    with 1 show ?thesis by simp
  next
    case 2
    have "round_double (of_int (- 1) * 2 powi 53) = Finite (of_int (- 1) * 2 powi 53)"
      by (rule round_double_representable) simp_all
    with 2 show ?thesis by simp
  qed
qed

lemma float_of_int_exact:
  "\<bar>n\<bar> \<le> 2 ^ 53 \<Longrightarrow> float_of_int n = Inr (Finite (of_int n))"
  by (simp add: float_of_int_def round_double_of_int)

lemma float_of_int_overflow:
  assumes "2 ^ 1024 - 2 ^ 970 \<le> n"
  shows "float_of_int n = Inl (OverflowError ''int too large to convert to float'')"
proof -
  have "real_of_int (2 ^ 1024 - 2 ^ 970) \<le> of_int n"
    using assms by (simp only: of_int_le_iff)
  then have "2 ^ 1024 - 2 ^ 970 \<le> real_of_int n" by simp
  then show ?thesis
    by (simp add: float_of_int_def round_double_overflow)
qed

lemma float_of_int_in_range:
  assumes "0 \<le> n" and "n < 2 ^ 1024 - 2 ^ 970"
  shows "\<exists>f. float_of_int n = Inr (Finite f) \<and> 0 \<le> f"
proof (cases "n = 0")
  case True
  then show ?thesis by (simp add: float_of_int_def round_double_def)
next
  case False
  with assms have pos: "0 < real_of_int n" by simp
  have "real_of_int n < of_int (2 ^ 1024 - 2 ^ 970)"
    using assms(2) by (simp only: of_int_less_iff)
  then have "real_of_int n < 2 ^ 1024 - 2 ^ 970" by simp
  from round_double_in_range [OF pos this] show ?thesis
    by (auto simp: float_of_int_def)
qed

lemma round_double_zero [simp]: "round_double 0 = Finite 0"
  by (simp add: round_double_def)

lemma round_double_error:
  assumes fin: "round_double x = Finite r" and normal: "2 powi (- 1022) \<le> \<bar>x\<bar>"
  shows "\<bar>r - x\<bar> \<le> \<bar>x\<bar> / 2 ^ 53"
proof -
  define e where "e = binary_exponent x"
  define q :: real where "q = 2 powi (e - 52)"
  have "(0::real) < 2 powi (- 1022)" by simp
  with normal have x0: "x \<noteq> 0" by auto
  have lo: "2 powi e \<le> \<bar>x\<bar>" and hi: "\<bar>x\<bar> < 2 powi (e + 1)"
    using binary_exponent_bounds [OF x0] by (simp_all add: e_def)
  from normal hi have "(2::real) powi (- 1022) < 2 powi (e + 1)" by linarith
  then have "- 1022 < e + 1" by (rule two_powi_less_cancel)
  then have m: "max (binary_exponent x) (- 1022) = e" by (simp add: e_def)
  have qpos: "0 < q" by (simp add: q_def)
  from fin x0 m have r: "r = of_int (round_half_even (x / q)) * q"
    by (simp add: round_double_def Let_def q_def split: if_splits)
  have "r - x = (of_int (round_half_even (x / q)) - x / q) * q"
    using qpos by (simp add: r algebra_simps)
  then have "\<bar>r - x\<bar> = \<bar>of_int (round_half_even (x / q)) - x / q\<bar> * q"
    using qpos by (simp add: abs_mult)
  also have "\<dots> \<le> (1 / 2) * q"
  proof -
    have "\<bar>of_int (round_half_even (x / q)) - x / q\<bar> \<le> 1 / 2"
      using round_half_even_upper [of "x / q"] round_half_even_lower [of "x / q"]
      by linarith
    then show ?thesis
      using qpos by (intro mult_right_mono) simp_all
  qed
  also have "\<dots> = 2 powi e / 2 ^ 53"
    using two_powi_shift [of 52 e] by (simp add: q_def)
  also have "\<dots> \<le> \<bar>x\<bar> / 2 ^ 53"
    using lo by (simp add: divide_right_mono)
  finally show ?thesis .
qed

lemma gross_current_value_ints:
  assumes "\<bar>n\<bar> \<le> 2 ^ 53" and "\<bar>m * n\<bar> \<le> 2 ^ 53"
  shows "gross_current_value (Finite (of_int m)) n = Inr (Finite (of_int (m * n)))"
  using assms round_double_of_int [of "m * n"]
  by (simp add: gross_current_value_def float_of_int_exact)

lemma gross_150_10: "gross_current_value (Finite 150) 10 = Inr (Finite 1500)"
  using gross_current_value_ints [of 10 150] by simp

lemma gross_150_3: "gross_current_value (Finite 150) 3 = Inr (Finite 450)"
  using gross_current_value_ints [of 3 150] by simp

lemma round_double_at:
  assumes lo: "2 powi e \<le> \<bar>x\<bar>" and hi: "\<bar>x\<bar> < 2 powi (e + 1)" and e: "- 1022 \<le> e"
    and k: "round_half_even (x / 2 powi (e - 52)) = k"
    and range: "\<bar>of_int k * 2 powi (e - 52)\<bar> < (2::real) ^ 1024"
  shows "round_double x = Finite (of_int k * 2 powi (e - 52))"
proof -
  have be: "binary_exponent x = e"
    using lo hi by (rule binary_exponent_eqI)
  have "(0::real) < 2 powi e" by simp
  with lo have "0 < \<bar>x\<bar>" by linarith
  then have x0: "x \<noteq> 0" by simp
  from e have m: "max e (- 1022) = e" by simp
  show ?thesis
    using x0 range by (simp add: round_double_def be m k Let_def)
qed

lemma tenth_times_three:
  "round_double (3602879701896397 / 2 ^ 55 * 3) = Finite (5404319552844596 / 2 ^ 54)"
proof -
  have k: "round_half_even (3602879701896397 / 2 ^ 55 * 3 / 2 powi (- 2 - 52)) = 5404319552844596"
    by (simp add: round_half_even_def Let_def)
  have "round_double (3602879701896397 / 2 ^ 55 * 3) =
          Finite (of_int 5404319552844596 * 2 powi (- 2 - 52))"
    by (rule round_double_at [OF _ _ _ k]) simp_all
  then show ?thesis by simp
qed

section \<open>Auxiliary facts\<close>

lemma get_stock_info_row:
  assumes "get_stock_info prov today s = Inr info"
  shows "\<exists>frame. prov (stock_name s) (stock_country s) (purchase_date s) today = Inr frame \<and>
       frame \<noteq> [] \<and> row_of s (Close (last frame)) = Some info"
proof -
  from assms obtain frame
    where f: "prov (stock_name s) (stock_country s) (purchase_date s) today = Inr frame"
    by (auto simp: get_stock_info_def split: sum.splits)
  with assms have ne: "frame \<noteq> []"
    by (auto simp: get_stock_info_def current_price_def split: sum.splits if_splits)
  with assms f have "row_of s (Close (last frame)) = Some info"
    by (auto simp: get_stock_info_def current_price_def row_of_def split: sum.splits)
  with f ne show ?thesis by blast
qed

lemma row_price_row_of: "row_of s c = Some info \<Longrightarrow> row_price info = Some c"
  by (auto simp: row_price_def row_of_def split: sum.splits)

lemma computed_from_row_of: "row_of s c = Some info \<Longrightarrow> computed_from s info"
  by (simp add: computed_from_def row_price_row_of)

lemma get_stock_info_computed_from:
  "get_stock_info prov today s = Inr info \<Longrightarrow> computed_from s info"
  using get_stock_info_row computed_from_row_of by blast

lemma refresh_loop_fetch_rows:
  "refresh_loop prov today self objs =
     (self\<lparr>stocks := stocks self @ fst (fetch_rows prov today objs)\<rparr>,
      snd (fetch_rows prov today objs))"
  by (induction objs arbitrary: self) (auto split: sum.splits prod.splits)

lemma fetch_rows_ok:
  "fetch_rows prov today objs = (rows, None) \<Longrightarrow>
     map (get_stock_info prov today) objs = map Inr rows"
  by (induction objs arbitrary: rows) (auto split: sum.splits prod.splits)

lemma fetch_rows_fail:
  "fetch_rows prov today objs = (rows, Some e) \<Longrightarrow>
     length rows < length objs \<and>
     get_stock_info prov today (objs ! length rows) = Inl e \<and>
     map (get_stock_info prov today) (take (length rows) objs) = map Inr rows"
  by (induction objs arbitrary: rows) (auto split: sum.splits prod.splits)

lemma fetch_rows_cong:
  "\<forall>s \<in> set objs. get_stock_info prov2 today2 s = get_stock_info prov1 today1 s \<Longrightarrow>
     fetch_rows prov2 today2 objs = fetch_rows prov1 today1 objs"
  by (induction objs) (auto split: sum.splits prod.splits)

lemma refresh_eq:
  "refresh prov today self =
     (if stock_objs self = [] then (self, None)
      else case fetch_rows prov today (stock_objs self) of
        (rows, Some e) \<Rightarrow> (self\<lparr>stocks := rows\<rparr>, Some e)
      | (rows, None) \<Rightarrow> (self\<lparr>stocks := rows, data := Some rows\<rparr>, None))"
  by (auto simp: refresh_def refresh_loop_fetch_rows split: prod.splits option.splits)


lemma refresh_stock_objs: "stock_objs (fst (refresh prov today self)) = stock_objs self"
  by (simp add: refresh_eq split: prod.splits option.splits)

lemma add_stock_cases:
  "add_stock validate prov today self name country purchased shares cost =
     (case validate (Stock name country purchased shares cost) of
        Inl e \<Rightarrow> (self, Some e)
      | Inr stock \<Rightarrow>
          if valid stock then
            (case get_stock_info prov today stock of
               Inl e \<Rightarrow> (self\<lparr>stock_objs := stock_objs self @ [stock]\<rparr>, Some e)
             | Inr info \<Rightarrow>
                 (self\<lparr>stock_objs := stock_objs self @ [stock],
                       stocks := stocks self @ [info],
                       data := Some (stocks self @ [info])\<rparr>, None))
          else (self, Some (ValueError ''ERROR [0001]: The introduced Stock is not valid.'')))"
  by (simp add: add_stock_def Let_def split: sum.splits)

lemma step_no_holdings:
  "stock_objs (fst (step self c)) = [] \<Longrightarrow> fst (step self c) = self"
proof (cases c)
  case (AddStock v prov today name country purchased shares cost)
  then show "stock_objs (fst (step self c)) = [] \<Longrightarrow> fst (step self c) = self"
    by (auto simp: add_stock_cases split: sum.splits if_splits)
next
  case (Refresh prov today)
  then show "stock_objs (fst (step self c)) = [] \<Longrightarrow> fst (step self c) = self"
    by (auto simp: refresh_eq split: prod.splits option.splits if_splits)
qed

lemma run_no_holdings:
  "stock_objs (run self calls) = [] \<Longrightarrow> run self calls = self"
proof (induction calls arbitrary: self)
  case Nil
  then show ?case by simp
next
  case (Cons c cs)
  then have a: "run (fst (step self c)) cs = fst (step self c)" by simp
  with Cons.prems have "stock_objs (fst (step self c)) = []" by simp
  then show ?case using a step_no_holdings by simp
qed

lemma get_stock_info_cong:
  "prov2 (stock_name s) (stock_country s) (purchase_date s) today2 =
   prov1 (stock_name s) (stock_country s) (purchase_date s) today1 \<Longrightarrow>
   get_stock_info prov2 today2 s = get_stock_info prov1 today1 s"
  by (simp add: get_stock_info_def)

lemma lockstep_iff:
  "lockstep self \<longleftrightarrow>
     length (stock_objs self) = length (stocks self) \<and>
     (\<forall>i < length (stocks self). computed_from (stock_objs self ! i) (stocks self ! i))"
  by (auto simp: lockstep_def list_all2_conv_all_nth)

lemma fetch_rows_computed_from:
  "fetch_rows prov today objs = (rows, None) \<Longrightarrow> list_all2 computed_from objs rows"
proof (induction objs arbitrary: rows)
  case Nil
  then show ?case by simp
next
  case (Cons s ss)
  then show ?case
    by (auto split: sum.splits prod.splits dest: get_stock_info_computed_from)
qed

lemma refresh_lockstep:
  assumes "refresh prov today self = (self1, None)" and "stock_objs self \<noteq> [] \<or> stocks self = []"
  shows "lockstep self1 \<and> map (get_stock_info prov today) (stock_objs self1) = map Inr (stocks self1)"
proof (cases "stock_objs self = []")
  case True
  with assms show ?thesis
    by (auto simp: refresh_eq lockstep_def)
next
  case False
  obtain rows r where fr: "fetch_rows prov today (stock_objs self) = (rows, r)"
    by (cases "fetch_rows prov today (stock_objs self)")
  with assms False have r: "r = None" and s1: "self1 = self\<lparr>stocks := rows, data := Some rows\<rparr>"
    by (auto simp: refresh_eq split: option.splits)
  from fr r have "list_all2 computed_from (stock_objs self) rows"
    and "map (get_stock_info prov today) (stock_objs self) = map Inr rows"
    by (simp_all add: fetch_rows_computed_from fetch_rows_ok)
  with s1 show ?thesis
    by (simp add: lockstep_def)
qed

lemma add_stock_lockstep:
  assumes "add_stock validate prov today self name country purchased shares cost = (self1, None)"
    and "lockstep self"
  shows "lockstep self1"
  using assms
  by (auto simp: add_stock_cases lockstep_def list_all2_appendI
      split: sum.splits if_splits dest: get_stock_info_computed_from)

lemma run_rows_without_holdings:
  "stock_objs (run StockPortfolio_init calls) = [] \<Longrightarrow> stocks (run StockPortfolio_init calls) = []"
  using run_no_holdings [of StockPortfolio_init calls] by (simp add: StockPortfolio_init_def)

lemma add_stock_completed:
  "add_stock validate prov today self name country purchased shares cost = (self1, None) \<Longrightarrow>
     \<exists>info. call_row (AddStock validate prov today name country purchased shares cost) = Some info \<and>
            stocks self1 = stocks self @ [info] \<and> data self1 = Some (stocks self1)"
  by (auto simp: add_stock_cases split: sum.splits if_splits)

lemma run_adds_rows:
  "\<forall>c \<in> set calls. is_add_stock c \<Longrightarrow> \<forall>r \<in> set (outcomes self calls). r = None \<Longrightarrow>
     map Some (stocks (run self calls)) = map Some (stocks self) @ map call_row calls"
proof (induction calls arbitrary: self)
  case Nil
  then show ?case by simp
next
  case (Cons c cs)
  from Cons.prems obtain validate prov today name country purchased shares cost
    where c: "c = AddStock validate prov today name country purchased shares cost"
    by (cases c) auto
  from Cons.prems have ok: "snd (step self c) = None"
    by simp
  then have "step self c = (fst (step self c), None)"
    by (metis prod.collapse)
  with c obtain info where info: "call_row c = Some info"
    and st: "stocks (fst (step self c)) = stocks self @ [info]"
    using add_stock_completed by (metis step.simps(1))
  from Cons.prems have "map Some (stocks (run (fst (step self c)) cs)) =
      map Some (stocks (fst (step self c))) @ map call_row cs"
    by (intro Cons.IH) simp_all
  with info st show ?case
    by simp
qed

lemma step_data_unchanged:
  "\<not> builds_snapshot self c \<Longrightarrow> data (fst (step self c)) = data self"
proof (cases c)
  case (AddStock validate prov today name country purchased shares cost)
  then show "\<not> builds_snapshot self c \<Longrightarrow> data (fst (step self c)) = data self"
    by (auto simp: add_stock_cases split: sum.splits if_splits)
next
  case (Refresh prov today)
  then show "\<not> builds_snapshot self c \<Longrightarrow> data (fst (step self c)) = data self"
    by (auto simp: refresh_eq split: prod.splits option.splits if_splits)
qed

lemma step_builds_snapshot:
  "builds_snapshot self c \<Longrightarrow> data (fst (step self c)) = Some (stocks (fst (step self c)))"
proof (cases c)
  case (AddStock validate prov today name country purchased shares cost)
  then show "builds_snapshot self c \<Longrightarrow> data (fst (step self c)) = Some (stocks (fst (step self c)))"
    by (auto simp: add_stock_cases split: sum.splits if_splits)
next
  case (Refresh prov today)
  then show "builds_snapshot self c \<Longrightarrow> data (fst (step self c)) = Some (stocks (fst (step self c)))"
    by (auto simp: refresh_eq split: prod.splits option.splits if_splits)
qed

lemma quiet_run_data:
  "quiet self calls \<Longrightarrow> data (run self calls) = data self"
  by (induction calls arbitrary: self) (simp_all add: step_data_unchanged)

text \<open>Forgetting the requests gives the operations of the previous sections.\<close>

lemma get_stock_info_io_result:
  "get_stock_info_io prov today s =
     (get_stock_info prov today s, [(stock_name s, stock_country s, purchase_date s, today)])"
  by (simp add: get_stock_info_io_def get_stock_info_def split: sum.splits)

lemma refresh_loop_io_result:
  "fst (refresh_loop_io prov today self objs) = refresh_loop prov today self objs"
proof (induction objs arbitrary: self)
  case Nil
  show ?case by simp
next
  case (Cons s rest)
  show ?case
  proof (cases "get_stock_info prov today s")
    case (Inl e)
    then show ?thesis by (simp add: get_stock_info_io_result)
  next
    case (Inr info)
    with Cons.IH [of "self\<lparr>stocks := stocks self @ [info]\<rparr>"] show ?thesis
      by (simp add: get_stock_info_io_result split_beta)
  qed
qed

lemma refresh_io_result: "fst (refresh_io prov today self) = refresh prov today self"
proof -
  have "fst (refresh_loop_io prov today (self\<lparr>stocks := []\<rparr>) (stock_objs self)) =
        refresh_loop prov today (self\<lparr>stocks := []\<rparr>) (stock_objs self)"
    by (rule refresh_loop_io_result)
  then show ?thesis
    by (auto simp: refresh_io_def refresh_def split: prod.splits option.splits)
qed

lemma refresh_loop_io_sent:
  "snd (refresh_loop_io prov today self (s # rest)) \<noteq> [] \<and>
   hd (snd (refresh_loop_io prov today self (s # rest))) =
     (stock_name s, stock_country s, purchase_date s, today)"
  by (auto simp: get_stock_info_io_result split: sum.splits prod.splits)

lemma refresh_io_sent:
  assumes "stock_objs self \<noteq> []"
  shows "snd (refresh_io prov today self) \<noteq> [] \<and>
         hd (snd (refresh_io prov today self)) =
           (stock_name (hd (stock_objs self)), stock_country (hd (stock_objs self)),
            purchase_date (hd (stock_objs self)), today)"
proof -
  from assms obtain s rest where objs: "stock_objs self = s # rest"
    by (cases "stock_objs self") auto
  have "snd (refresh_io prov today self) =
        snd (refresh_loop_io prov today (self\<lparr>stocks := []\<rparr>) (s # rest))"
    by (auto simp: refresh_io_def objs split: prod.splits option.splits)
  with refresh_loop_io_sent [of prov today "self\<lparr>stocks := []\<rparr>" s rest] objs show ?thesis
    by simp
qed

text \<open>The concrete collaborators, evaluated.\<close>

lemma acme_validate_acme:
  "acme_validate (Stock ''ACME'' ''US'' ''01/01/2020'' 10 (Finite 100)) = Inr acme"
  by (simp add: acme_validate_def Stock_def acme_def)

lemma valid_acme: "valid acme"
  by (simp add: acme_def)

lemma get_stock_info_acme: "get_stock_info acme_provider today acme = Inr acme_row"
  by (simp add: get_stock_info_def acme_provider_def acme_series_def current_price_def
      acme_def acme_row_def gross_150_10)

lemma get_stock_info_empty:
  "get_stock_info empty_provider today stock =
     Inl (IndexError ''single positional indexer is out-of-bounds'')"
  by (simp add: get_stock_info_def empty_provider_def current_price_def)

lemma get_stock_info_down:
  "get_stock_info down_provider today stock = Inl (ConnectionError ''no connection'')"
  by (simp add: get_stock_info_def down_provider_def)

lemma step_add_acme:
  "step self (add_acme prov) =
     (case get_stock_info prov ''04/11/2026'' acme of
        Inl e \<Rightarrow> (self\<lparr>stock_objs := stock_objs self @ [acme]\<rparr>, Some e)
      | Inr info \<Rightarrow>
          (self\<lparr>stock_objs := stock_objs self @ [acme], stocks := stocks self @ [info],
                data := Some (stocks self @ [info])\<rparr>, None))"
  by (simp add: add_acme_def add_stock_cases acme_validate_acme valid_acme)

lemma run_add_acme: "run StockPortfolio_init [add_acme acme_provider] = acme_portfolio"
  by (simp add: step_add_acme get_stock_info_acme StockPortfolio_init_def acme_portfolio_def)

lemma refresh_acme_portfolio:
  "stock_objs self = [acme] \<Longrightarrow>
   refresh acme_provider today self = (self\<lparr>stocks := [acme_row], data := Some [acme_row]\<rparr>, None)"
  by (simp add: refresh_eq get_stock_info_acme)

lemma get_stock_info_acme_later:
  "get_stock_info acme_provider today acme_later = Inr acme_later_row"
  by (simp add: get_stock_info_def acme_provider_def acme_series_def current_price_def
      acme_later_def acme_later_row_def gross_150_3)

lemma run_two_purchases:
  "run StockPortfolio_init [add_acme acme_provider, add_acme_later acme_provider] = two_purchases"
proof -
  have v: "acme_validate (Stock ''ACME'' ''US'' ''02/03/2021'' 3 (Finite 120)) = Inr acme_later"
    by (simp add: acme_validate_def Stock_def acme_later_def)
  have l: "valid acme_later"
    by (simp add: acme_later_def)
  have "step acme_portfolio (add_acme_later acme_provider) = (two_purchases, None)"
    by (simp add: add_acme_later_def add_stock_cases v l get_stock_info_acme_later
        acme_portfolio_def two_purchases_def)
  with run_add_acme show ?thesis
    by simp
qed

lemma get_stock_info_first_purchase:
  "get_stock_info first_purchase_provider today acme = Inr acme_row"
  "get_stock_info first_purchase_provider today acme_later =
     Inl (IndexError ''single positional indexer is out-of-bounds'')"
  by (simp_all add: get_stock_info_def first_purchase_provider_def acme_series_def
      current_price_def acme_def acme_later_def acme_row_def gross_150_10)

section \<open>The pure helpers\<close>

text \<open>
  Claim C4.  On every non-empty series \<open>current_price\<close> returns the \<open>Close\<close> value of
  the last entry, and when the series is in chronological order no entry is dated
  later than that one.  On the empty series the call raises \<open>IndexError\<close>: there is no
  price returned in its place.
\<close>

theorem current_price_last_close:
  "(series \<noteq> [] \<longrightarrow>
      current_price series = Inr (Close (last series)) \<and>
      (sorted (map Date series) \<longrightarrow> (\<forall>r \<in> set series. Date r \<le> Date (last series)))) \<and>
   current_price [] = Inl (IndexError ''single positional indexer is out-of-bounds'') \<and>
   (\<forall>p. current_price [] \<noteq> Inr p)"
proof -
  have chron: "\<forall>r \<in> set series. Date r \<le> Date (last series)"
    if ne: "series \<noteq> []" and srt: "sorted (map Date series)"
  proof
    fix r assume "r \<in> set series"
    then obtain i where i: "i < length series" and r: "series ! i = r"
      by (auto simp: in_set_conv_nth)
    have "map Date series ! i \<le> map Date series ! (length series - 1)"
      using srt i by (intro sorted_nth_mono) auto
    then show "Date r \<le> Date (last series)"
      using i r ne by (simp add: last_conv_nth)
  qed
  show ?thesis
    using chron by (simp add: current_price_def)
qed

theorem current_price_last_close_witness:
  "acme_series \<noteq> [] \<and> sorted (map Date acme_series) \<and>
   current_price acme_series = Inr (Finite 150) \<and>
   Date (acme_series ! 0) \<le> Date (last acme_series)"
proof -
  have ne: "acme_series \<noteq> []" and srt: "sorted (map Date acme_series)"
    and l: "Close (last acme_series) = Finite 150" and m: "acme_series ! 0 \<in> set acme_series"
    by (simp_all add: acme_series_def)
  from current_price_last_close [of acme_series] ne srt l m show ?thesis
    by simp
qed

text \<open>
  Claim C6, as stated, fails: with a share count beyond the range of floats the product
  raises \<open>OverflowError\<close>, also at the price \<open>0\<close>, and the price \<open>inf\<close> (which is \<open>\<ge> 0\<close>)
  with no shares gives NaN, not \<open>0\<close>.
\<close>

theorem gross_current_value_overflow_at_zero_price:
  "gross_current_value (Finite 0) (2 ^ 1024) =
     Inl (OverflowError ''int too large to convert to float'') \<and>
   gross_current_value PInf 0 = Inr NaN"
proof -
  have "float_of_int (2 ^ 1024) = Inl (OverflowError ''int too large to convert to float'')"
    by (rule float_of_int_overflow) simp
  moreover have "float_of_int 0 = Inr (Finite 0)"
    using float_of_int_exact [of 0] by simp
  ultimately show ?thesis
    by (simp add: gross_current_value_def)
qed

text \<open>
  Claim C6, amended.  For a finite price \<open>p\<close> and a share count \<open>0 \<le> n < 2^1024 - 2^970\<close>
  the gross current value is the float product of \<open>p\<close> and \<open>float(n)\<close>: the exact product
  rounded to the nearest float; it is \<open>0\<close> at \<open>p = 0\<close> and at \<open>n = 0\<close>.  For \<open>n \<le> 2^53\<close>,
  where \<open>float(n) = n\<close>, it is \<open>p * n\<close> rounded once: within the relative error \<open>2^-53\<close>
  of \<open>p * n\<close> when that is in the normal range, and \<open>p * n\<close> itself when that is a
  float.  For \<open>n \<ge> 2^1024 - 2^970\<close> the call raises \<open>OverflowError\<close> at every price.
\<close>

theorem gross_current_value_float_product:
  "(0 \<le> n \<and> n < 2 ^ 1024 - 2 ^ 970 \<longrightarrow>
      (\<exists>f. float_of_int n = Inr (Finite f) \<and> 0 \<le> f \<and>
           gross_current_value (Finite x) n = Inr (round_double (x * f))) \<and>
      gross_current_value (Finite 0) n = Inr (Finite 0)) \<and>
   (0 \<le> n \<and> n \<le> 2 ^ 53 \<longrightarrow>
      gross_current_value (Finite x) n = Inr (round_double (x * of_int n)) \<and>
      (gross_current_value (Finite x) n = Inr (Finite g) \<and> 2 powi (- 1022) \<le> \<bar>x * of_int n\<bar> \<longrightarrow>
         \<bar>g - x * of_int n\<bar> \<le> \<bar>x * of_int n\<bar> / 2 ^ 53) \<and>
      (\<bar>m\<bar> < 2 ^ 53 \<and> - 1074 \<le> k \<and> x * of_int n = of_int m * 2 powi k \<and>
       \<bar>x * of_int n\<bar> < 2 ^ 1024 \<longrightarrow>
         gross_current_value (Finite x) n = Inr (Finite (x * of_int n)))) \<and>
   gross_current_value (Finite x) 0 = Inr (Finite 0) \<and>
   (2 ^ 1024 - 2 ^ 970 \<le> n \<longrightarrow>
      gross_current_value p n = Inl (OverflowError ''int too large to convert to float''))"
proof -
  have in_range: "(\<exists>f. float_of_int n = Inr (Finite f) \<and> 0 \<le> f \<and>
           gross_current_value (Finite x) n = Inr (round_double (x * f))) \<and>
      gross_current_value (Finite 0) n = Inr (Finite 0)"
    if "0 \<le> n" and "n < 2 ^ 1024 - 2 ^ 970"
  proof -
    from float_of_int_in_range [OF that] obtain f
      where f: "float_of_int n = Inr (Finite f)" and f0: "0 \<le> f" by blast
    then show ?thesis
      by (auto simp: gross_current_value_def)
  qed
  have exact_int: "gross_current_value (Finite x) n = Inr (round_double (x * of_int n))"
    if "0 \<le> n" and "n \<le> 2 ^ 53"
    using that by (simp add: gross_current_value_def float_of_int_exact)
  have err: "\<bar>g - x * of_int n\<bar> \<le> \<bar>x * of_int n\<bar> / 2 ^ 53"
    if "0 \<le> n" and "n \<le> 2 ^ 53" and "gross_current_value (Finite x) n = Inr (Finite g)"
      and "2 powi (- 1022) \<le> \<bar>x * of_int n\<bar>"
  proof -
    from exact_int [OF that(1,2)] that(3) have "round_double (x * of_int n) = Finite g"
      by simp
    then show ?thesis
      using that(4) by (rule round_double_error)
  qed
  have repr: "gross_current_value (Finite x) n = Inr (Finite (x * of_int n))"
    if "0 \<le> n" and "n \<le> 2 ^ 53" and "\<bar>m\<bar> < 2 ^ 53" and "- 1074 \<le> k"
      and "x * of_int n = of_int m * 2 powi k" and "\<bar>x * of_int n\<bar> < 2 ^ 1024"
  proof -
    have "round_double (of_int m * 2 powi k) = Finite (of_int m * 2 powi k)"
      using that(3,4) that(6) [unfolded that(5)] by (rule round_double_representable)
    with exact_int [OF that(1,2)] that(5) show ?thesis by simp
  qed
  have zero: "gross_current_value (Finite x) 0 = Inr (Finite 0)"
    using float_of_int_exact [of 0] by (simp add: gross_current_value_def)
  have over: "gross_current_value p n = Inl (OverflowError ''int too large to convert to float'')"
    if "2 ^ 1024 - 2 ^ 970 \<le> n"
    using float_of_int_overflow [OF that] by (simp add: gross_current_value_def)
  from in_range exact_int err repr zero over show ?thesis
    by blast
qed

theorem gross_current_value_float_product_witness:
  "gross_current_value (Finite 150) 10 = Inr (Finite 1500) \<and>
   gross_current_value (Finite 0) 10 = Inr (Finite 0) \<and>
   gross_current_value (Finite 150) 0 = Inr (Finite 0) \<and>
   gross_current_value (Finite (3602879701896397 / 2 ^ 55)) 3 =
     Inr (Finite (5404319552844596 / 2 ^ 54)) \<and>
   gross_current_value (Finite 150) (2 ^ 1024) =
     Inl (OverflowError ''int too large to convert to float'')"
proof -
  have small: "0 \<le> (10::int) \<and> (10::int) \<le> 2 ^ 53"
    and in_range: "0 \<le> (10::int) \<and> (10::int) < 2 ^ 1024 - 2 ^ 970"
    and small3: "0 \<le> (3::int) \<and> (3::int) \<le> 2 ^ 53"
    and big: "(2::int) ^ 1024 - 2 ^ 970 \<le> 2 ^ 1024"
    by simp_all
  note t = gross_current_value_float_product [of 10 150 0 1500 0 NaN]
  from t [THEN conjunct2, THEN conjunct1, THEN mp, OF small, THEN conjunct2, THEN conjunct2]
  have a: "gross_current_value (Finite 150) 10 = Inr (Finite 1500)"
    by simp
  from t [THEN conjunct1, THEN mp, OF in_range, THEN conjunct2]
  have b: "gross_current_value (Finite 0) 10 = Inr (Finite 0)" .
  from t [THEN conjunct2, THEN conjunct2, THEN conjunct1]
  have c: "gross_current_value (Finite 150) 0 = Inr (Finite 0)" .
  from gross_current_value_float_product [of 3 "3602879701896397 / 2 ^ 55" 0 0 0 NaN,
      THEN conjunct2, THEN conjunct1, THEN mp, OF small3, THEN conjunct1]
  have d: "gross_current_value (Finite (3602879701896397 / 2 ^ 55)) 3 =
     Inr (Finite (5404319552844596 / 2 ^ 54))"
    by (simp only: of_int_numeral tenth_times_three)
  from gross_current_value_float_product [of "2 ^ 1024" 0 0 0 0 "Finite 150",
      THEN conjunct2, THEN conjunct2, THEN conjunct2, THEN mp, OF big]
  have e: "gross_current_value (Finite 150) (2 ^ 1024) =
     Inl (OverflowError ''int too large to convert to float'')" .
  from a b c d e show ?thesis by blast
qed

section \<open>Failing calls\<close>

text \<open>
  Claim C1, as stated, fails: a call of \<open>add_stock\<close> that passes validation and then
  gets no rows from the provider raises \<open>IndexError\<close> and leaves the validated holding
  on the list of holdings, so the object is not as it was before the call.
\<close>

theorem add_stock_failure_keeps_holding:
  "snd (add_stock acme_validate empty_provider ''04/11/2026'' StockPortfolio_init
          ''ACME'' ''US'' ''01/01/2020'' 10 (Finite 100)) =
     Some (IndexError ''single positional indexer is out-of-bounds'') \<and>
   fst (add_stock acme_validate empty_provider ''04/11/2026'' StockPortfolio_init
          ''ACME'' ''US'' ''01/01/2020'' 10 (Finite 100)) \<noteq> StockPortfolio_init \<and>
   stock_objs (fst (add_stock acme_validate empty_provider ''04/11/2026'' StockPortfolio_init
          ''ACME'' ''US'' ''01/01/2020'' 10 (Finite 100))) = [acme]"
  by (simp add: add_stock_def Stock_def acme_validate_def empty_provider_def acme_def
      get_stock_info_def current_price_def StockPortfolio_init_def)

text \<open>
  Claim C1, amended.  A failing \<open>add_stock\<close> leaves the rows and the frame as they
  were.  When validation raises or rejects the holding, the whole object is as it was
  before the call; when the fetch fails after validation, the validated holding has
  been appended to the list of holdings and nothing else has changed.
\<close>

theorem add_stock_failure_state:
  assumes "add_stock validate prov today self name country purchased shares cost = (self1, Some e)"
  shows "stocks self1 = stocks self \<and> data self1 = data self \<and>
         (case validate (Stock name country purchased shares cost) of
            Inl e' \<Rightarrow> self1 = self \<and> e = e'
          | Inr stock \<Rightarrow>
              if valid stock
              then self1 = self\<lparr>stock_objs := stock_objs self @ [stock]\<rparr> \<and>
                   get_stock_info prov today stock = Inl e
              else self1 = self \<and>
                   e = ValueError ''ERROR [0001]: The introduced Stock is not valid.'')"
  using assms by (auto simp: add_stock_cases split: sum.splits if_splits)

theorem add_stock_failure_state_witness:
  "add_stock acme_validate empty_provider ''04/11/2026'' StockPortfolio_init
       ''ACME'' ''US'' ''01/01/2020'' 10 (Finite 100) =
     (\<lparr>stocks = [], stock_objs = [acme], data = None\<rparr>,
      Some (IndexError ''single positional indexer is out-of-bounds'')) \<and>
   add_stock acme_validate acme_provider ''04/11/2026'' StockPortfolio_init
       ''EMCA'' ''US'' ''01/01/2020'' 10 (Finite 100) =
     (StockPortfolio_init, Some (ValueError ''ERROR [0001]: The introduced Stock is not valid.''))"
proof -
  have a: "add_stock acme_validate empty_provider ''04/11/2026'' StockPortfolio_init
       ''ACME'' ''US'' ''01/01/2020'' 10 (Finite 100) =
     (\<lparr>stocks = [], stock_objs = [acme], data = None\<rparr>,
      Some (IndexError ''single positional indexer is out-of-bounds''))"
    by (simp add: add_stock_def Stock_def acme_validate_def empty_provider_def acme_def
        get_stock_info_def current_price_def StockPortfolio_init_def)
  have b: "add_stock acme_validate acme_provider ''04/11/2026'' StockPortfolio_init
       ''EMCA'' ''US'' ''01/01/2020'' 10 (Finite 100) =
     (StockPortfolio_init, Some (ValueError ''ERROR [0001]: The introduced Stock is not valid.''))"
    by (simp add: add_stock_def Stock_def acme_validate_def)
  from add_stock_failure_state [OF a] add_stock_failure_state [OF b] a b show ?thesis
    by simp
qed

text \<open>
  Claim C3, as stated, fails: a \<open>refresh\<close> whose fetch fails has already emptied
  the list of rows, so the object is not as it was before the call.
\<close>

theorem refresh_failure_resets_rows:
  "run StockPortfolio_init [add_acme acme_provider] = acme_portfolio \<and>
   refresh empty_provider ''05/11/2026'' acme_portfolio =
     (\<lparr>stocks = [], stock_objs = [acme], data = Some [acme_row]\<rparr>,
      Some (IndexError ''single positional indexer is out-of-bounds'')) \<and>
   fst (refresh empty_provider ''05/11/2026'' acme_portfolio) \<noteq> acme_portfolio"
proof -
  have "refresh empty_provider ''05/11/2026'' acme_portfolio =
     (\<lparr>stocks = [], stock_objs = [acme], data = Some [acme_row]\<rparr>,
      Some (IndexError ''single positional indexer is out-of-bounds''))"
    by (simp add: refresh_eq get_stock_info_empty acme_portfolio_def)
  moreover have "\<lparr>stocks = [], stock_objs = [acme], data = Some [acme_row]\<rparr> \<noteq> acme_portfolio"
    by (simp add: acme_portfolio_def)
  ultimately show ?thesis
    using run_add_acme by simp
qed

text \<open>
  Claim C3, amended.  A \<open>refresh\<close> that fails in a fetch leaves the frame and the list
  of holdings as they were, and changes nothing but the list of rows: that list is
  rebuilt, and holds the rows just fetched for the holdings before the failing one, and
  nothing more, whatever it held before.
\<close>

theorem refresh_failure_state:
  assumes "refresh prov today self = (self1, Some e)"
  shows "data self1 = data self \<and> stock_objs self1 = stock_objs self \<and>
         self1 = self\<lparr>stocks := stocks self1\<rparr> \<and>
         length (stocks self1) < length (stock_objs self) \<and>
         get_stock_info prov today (stock_objs self ! length (stocks self1)) = Inl e \<and>
         map (get_stock_info prov today) (take (length (stocks self1)) (stock_objs self)) =
           map Inr (stocks self1)"
proof -
  from assms have ne: "stock_objs self \<noteq> []"
    by (auto simp: refresh_eq)
  obtain rows r where fr: "fetch_rows prov today (stock_objs self) = (rows, r)"
    by (cases "fetch_rows prov today (stock_objs self)")
  with assms ne have r: "r = Some e" and s1: "self1 = self\<lparr>stocks := rows\<rparr>"
    by (auto simp: refresh_eq split: option.splits)
  from fetch_rows_fail [OF fr [unfolded r]] s1 show ?thesis
    by simp
qed

theorem refresh_failure_state_witness:
  "run StockPortfolio_init [add_acme acme_provider, add_acme_later acme_provider] = two_purchases \<and>
   refresh first_purchase_provider ''06/11/2026'' two_purchases =
     (\<lparr>stocks = [acme_row], stock_objs = [acme, acme_later],
       data = Some [acme_row, acme_later_row]\<rparr>,
      Some (IndexError ''single positional indexer is out-of-bounds'')) \<and>
   data \<lparr>stocks = [acme_row], stock_objs = [acme, acme_later],
         data = Some [acme_row, acme_later_row]\<rparr> = data two_purchases \<and>
   get_stock_info first_purchase_provider ''06/11/2026'' (stock_objs two_purchases ! 1) =
     Inl (IndexError ''single positional indexer is out-of-bounds'') \<and>
   map (get_stock_info first_purchase_provider ''06/11/2026'') (take 1 (stock_objs two_purchases)) =
     map Inr [acme_row]"
proof -
  have a: "refresh first_purchase_provider ''06/11/2026'' two_purchases =
     (\<lparr>stocks = [acme_row], stock_objs = [acme, acme_later],
       data = Some [acme_row, acme_later_row]\<rparr>,
      Some (IndexError ''single positional indexer is out-of-bounds''))"
    by (simp add: refresh_eq get_stock_info_first_purchase two_purchases_def)
  from refresh_failure_state [OF a] a run_two_purchases show ?thesis
    by simp
qed

section \<open>Refresh\<close>

text \<open>
  Claim C7.  On a portfolio without holdings \<open>refresh\<close> sends no request to the
  provider and returns with the object as it was; with a holding it sends one for the
  first holding at least.  A portfolio without holdings that was built by calls on a new
  object has no rows and no frame, and still has none afterwards.
\<close>

theorem refresh_without_holdings:
  "(stock_objs self = [] \<longrightarrow>
      refresh_io prov today self = ((self, None), []) \<and>
      refresh prov today self = (self, None)) \<and>
   (stock_objs self \<noteq> [] \<longrightarrow>
      snd (refresh_io prov today self) \<noteq> [] \<and>
      hd (snd (refresh_io prov today self)) =
        (stock_name (hd (stock_objs self)), stock_country (hd (stock_objs self)),
         purchase_date (hd (stock_objs self)), today)) \<and>
   (stock_objs (run StockPortfolio_init calls) = [] \<longrightarrow>
      refresh_io prov today (run StockPortfolio_init calls) =
        ((run StockPortfolio_init calls, None), []) \<and>
      refresh prov today (run StockPortfolio_init calls) = (run StockPortfolio_init calls, None) \<and>
      stocks (run StockPortfolio_init calls) = [] \<and>
      data (run StockPortfolio_init calls) = None \<and>
      data (fst (refresh prov today (run StockPortfolio_init calls))) = None)"
proof -
  have a: "refresh_io prov today p = ((p, None), []) \<and> refresh prov today p = (p, None)"
    if "stock_objs p = []" for p
    using that by (simp add: refresh_io_def refresh_def)
  have b: "run StockPortfolio_init calls = StockPortfolio_init"
    if "stock_objs (run StockPortfolio_init calls) = []"
    using that by (rule run_no_holdings)
  have c: "stocks (run StockPortfolio_init calls) = [] \<and> data (run StockPortfolio_init calls) = None"
    if "stock_objs (run StockPortfolio_init calls) = []"
    using b [OF that] by (simp add: StockPortfolio_init_def)
  from a [of self] a [of "run StockPortfolio_init calls"] c refresh_io_sent [of self prov today]
  show ?thesis
    by auto
qed

theorem refresh_without_holdings_witness:
  "stock_objs (run StockPortfolio_init
      [AddStock acme_validate acme_provider ''04/11/2026'' ''EMCA'' ''US'' ''01/01/2020'' 10 (Finite 100)]) = [] \<and>
   refresh_io down_provider ''05/11/2026'' StockPortfolio_init = ((StockPortfolio_init, None), []) \<and>
   refresh_io down_provider ''05/11/2026'' (run StockPortfolio_init
      [AddStock acme_validate acme_provider ''04/11/2026'' ''EMCA'' ''US'' ''01/01/2020'' 10 (Finite 100)]) =
     ((StockPortfolio_init, None), []) \<and>
   hd (snd (refresh_io acme_provider ''05/11/2026'' acme_portfolio)) =
     (''ACME'', ''US'', ''01/01/2020'', ''05/11/2026'')"
proof -
  let ?calls = "[AddStock acme_validate acme_provider ''04/11/2026'' ''EMCA'' ''US'' ''01/01/2020'' 10 (Finite 100)]"
  have r: "run StockPortfolio_init ?calls = StockPortfolio_init"
    by (simp add: add_stock_def acme_validate_def Stock_def)
  have a: "stock_objs (run StockPortfolio_init ?calls) = []"
    unfolding r by (simp add: StockPortfolio_init_def)
  have b: "stock_objs StockPortfolio_init = []"
    by (simp add: StockPortfolio_init_def)
  have c: "stock_objs acme_portfolio \<noteq> []" and h: "hd (stock_objs acme_portfolio) = acme"
    by (simp_all add: acme_portfolio_def)
  note t1 = refresh_without_holdings [of StockPortfolio_init down_provider "''05/11/2026''" ?calls]
  note t2 = refresh_without_holdings [of acme_portfolio acme_provider "''05/11/2026''" "[]"]
  from t1 [THEN conjunct1, THEN mp, OF b, THEN conjunct1]
  have w1: "refresh_io down_provider ''05/11/2026'' StockPortfolio_init = ((StockPortfolio_init, None), [])" .
  from t1 [THEN conjunct2, THEN conjunct2, THEN mp, OF a, THEN conjunct1]
  have w2: "refresh_io down_provider ''05/11/2026'' (run StockPortfolio_init ?calls) =
     ((StockPortfolio_init, None), [])"
    unfolding r .
  from t2 [THEN conjunct2, THEN conjunct1, THEN mp, OF c, THEN conjunct2]
  have w3: "hd (snd (refresh_io acme_provider ''05/11/2026'' acme_portfolio)) =
     (''ACME'', ''US'', ''01/01/2020'', ''05/11/2026'')"
    unfolding h by (simp add: acme_def)
  from a w1 w2 w3 show ?thesis by blast
qed

text \<open>
  Claim C8.  When the provider returns for every holding in the second \<open>refresh\<close>
  what it returned in the first, the second call leaves the frame, and the whole
  object, as the first call left them, and ends as the first did.
\<close>

theorem refresh_twice_same_provider:
  assumes same: "\<forall>s \<in> set (stock_objs self).
             prov2 (stock_name s) (stock_country s) (purchase_date s) today2 =
             prov1 (stock_name s) (stock_country s) (purchase_date s) today1"
    and first: "refresh prov1 today1 self = (self1, r1)"
    and second: "refresh prov2 today2 self1 = (self2, r2)"
  shows "data self2 = data self1 \<and> self2 = self1 \<and> r2 = r1"
proof (cases "stock_objs self = []")
  case True
  with first have "self1 = self" "r1 = None"
    by (simp_all add: refresh_eq)
  with True second show ?thesis
    by (simp add: refresh_eq)
next
  case False
  obtain rows r where fr: "fetch_rows prov1 today1 (stock_objs self) = (rows, r)"
    by (cases "fetch_rows prov1 today1 (stock_objs self)")
  have "\<forall>s \<in> set (stock_objs self). get_stock_info prov2 today2 s = get_stock_info prov1 today1 s"
    using same get_stock_info_cong by blast
  then have "fetch_rows prov2 today2 (stock_objs self) = fetch_rows prov1 today1 (stock_objs self)"
    by (rule fetch_rows_cong)
  with fr have fr2: "fetch_rows prov2 today2 (stock_objs self) = (rows, r)"
    by simp
  show ?thesis
  proof (cases r)
    case None
    with first fr False have "self1 = self\<lparr>stocks := rows, data := Some rows\<rparr>" "r1 = None"
      by (simp_all add: refresh_eq)
    with second fr2 False None show ?thesis
      by (simp add: refresh_eq)
  next
    case (Some e)
    with first fr False have "self1 = self\<lparr>stocks := rows\<rparr>" "r1 = Some e"
      by (simp_all add: refresh_eq)
    with second fr2 False Some show ?thesis
      by (simp add: refresh_eq)
  qed
qed

theorem refresh_twice_same_provider_witness:
  "refresh acme_provider ''05/11/2026'' (acme_portfolio\<lparr>data := None\<rparr>) = (acme_portfolio, None) \<and>
   refresh acme_provider ''06/11/2026'' acme_portfolio = (acme_portfolio, None)"
proof -
  have a: "refresh acme_provider ''05/11/2026'' (acme_portfolio\<lparr>data := None\<rparr>) = (acme_portfolio, None)"
    by (simp add: refresh_eq get_stock_info_acme acme_portfolio_def)
  obtain self2 r2 where b: "refresh acme_provider ''06/11/2026'' acme_portfolio = (self2, r2)"
    by (cases "refresh acme_provider ''06/11/2026'' acme_portfolio")
  have c: "\<forall>s \<in> set (stock_objs (acme_portfolio\<lparr>data := None\<rparr>)).
             acme_provider (stock_name s) (stock_country s) (purchase_date s) ''06/11/2026'' =
             acme_provider (stock_name s) (stock_country s) (purchase_date s) ''05/11/2026''"
    by (simp add: acme_provider_def)
  from refresh_twice_same_provider [OF c a b] have "self2 = acme_portfolio" "r2 = None"
    by simp_all
  with a b show ?thesis
    by simp
qed

text \<open>
  Claim C9.  When \<open>add_stock\<close> raises from the fetch after validation succeeded, the
  validated holding is on the list of holdings and no row was recorded for it; a later
  \<open>refresh\<close> that returns normally fetches that holding as the last one and its row is
  in the frame.
\<close>

theorem failed_fetch_holding_is_refreshed:
  assumes "validate (Stock name country purchased shares cost) = Inr stock"
    and "valid stock"
    and "get_stock_info prov today stock = Inl e"
  shows "add_stock validate prov today self name country purchased shares cost =
           (self\<lparr>stock_objs := stock_objs self @ [stock]\<rparr>, Some e) \<and>
         stocks (self\<lparr>stock_objs := stock_objs self @ [stock]\<rparr>) = stocks self \<and>
         (refresh prov2 today2 (self\<lparr>stock_objs := stock_objs self @ [stock]\<rparr>) = (self2, None) \<longrightarrow>
            stock_objs self2 = stock_objs self @ [stock] \<and>
            data self2 = Some (stocks self2) \<and>
            length (stocks self2) = length (stock_objs self) + 1 \<and>
            get_stock_info prov2 today2 stock = Inr (last (stocks self2)))"
proof -
  let ?self1 = "self\<lparr>stock_objs := stock_objs self @ [stock]\<rparr>"
  have add: "add_stock validate prov today self name country purchased shares cost = (?self1, Some e)"
    using assms by (simp add: add_stock_cases)
  have later: "stock_objs self2 = stock_objs self @ [stock] \<and>
            data self2 = Some (stocks self2) \<and>
            length (stocks self2) = length (stock_objs self) + 1 \<and>
            get_stock_info prov2 today2 stock = Inr (last (stocks self2))"
    if ok: "refresh prov2 today2 ?self1 = (self2, None)"
  proof -
    obtain rows r where fr: "fetch_rows prov2 today2 (stock_objs self @ [stock]) = (rows, r)"
      by (cases "fetch_rows prov2 today2 (stock_objs self @ [stock])")
    with ok have r: "r = None" and s2: "self2 = ?self1\<lparr>stocks := rows, data := Some rows\<rparr>"
      by (auto simp: refresh_eq split: option.splits)
    from fetch_rows_ok [OF fr [unfolded r]]
    have m: "map (get_stock_info prov2 today2) (stock_objs self @ [stock]) = map Inr rows" .
    have len: "length rows = length (stock_objs self) + 1"
      using arg_cong [OF m, of length] by simp
    then have ne: "rows \<noteq> []" by auto
    have "last (map (get_stock_info prov2 today2) (stock_objs self @ [stock])) = last (map Inr rows)"
      using m by (rule arg_cong)
    then have "get_stock_info prov2 today2 stock = Inr (last rows)"
      using ne by (simp add: last_map)
    with s2 len show ?thesis by simp
  qed
  from add later show ?thesis by simp
qed

theorem failed_fetch_holding_is_refreshed_witness:
  "add_stock acme_validate down_provider ''04/11/2026'' StockPortfolio_init
       ''ACME'' ''US'' ''01/01/2020'' 10 (Finite 100) =
     (\<lparr>stocks = [], stock_objs = [acme], data = None\<rparr>, Some (ConnectionError ''no connection'')) \<and>
   refresh acme_provider ''05/11/2026'' \<lparr>stocks = [], stock_objs = [acme], data = None\<rparr> =
     (acme_portfolio, None) \<and>
   data acme_portfolio = Some [acme_row] \<and>
   get_stock_info acme_provider ''05/11/2026'' acme = Inr (last (stocks acme_portfolio))"
proof -
  have r: "refresh acme_provider ''05/11/2026''
             (StockPortfolio_init\<lparr>stock_objs := stock_objs StockPortfolio_init @ [acme]\<rparr>) =
           (acme_portfolio, None)"
    by (simp add: refresh_eq get_stock_info_acme acme_portfolio_def StockPortfolio_init_def)
  have g: "get_stock_info down_provider ''04/11/2026'' acme = Inl (ConnectionError ''no connection'')"
    by (rule get_stock_info_down)
  from failed_fetch_holding_is_refreshed
         [where validate = acme_validate and stock = acme and self = StockPortfolio_init
            and ?prov2.0 = acme_provider and ?today2.0 = "''05/11/2026''" and ?self2.0 = acme_portfolio,
          OF acme_validate_acme valid_acme g] r
  show ?thesis
    by (simp add: StockPortfolio_init_def acme_portfolio_def)
qed

section \<open>The lockstep of holdings and rows\<close>

text \<open>
  Claim C2, as stated, fails: an \<open>add_stock\<close> that returns normally after an earlier
  \<open>add_stock\<close> raised from the fetch leaves two holdings and one row.
\<close>

theorem completed_add_after_failed_add:
  "outcomes StockPortfolio_init [add_acme down_provider, add_acme acme_provider] =
     [Some (ConnectionError ''no connection''), None] \<and>
   length (stock_objs (run StockPortfolio_init [add_acme down_provider, add_acme acme_provider])) = 2 \<and>
   length (stocks (run StockPortfolio_init [add_acme down_provider, add_acme acme_provider])) = 1"
  by (simp add: step_add_acme get_stock_info_down get_stock_info_acme StockPortfolio_init_def)

text \<open>
  Claim C2, amended.  A new portfolio has its holdings and rows in lockstep.  After
  every \<open>refresh\<close> that returns normally the two lists have equal length and the row at
  each index is the row computed from the holding at that index (with the provider of
  that call).  After an \<open>add_stock\<close> that returns normally the same holds when the two
  lists were in lockstep before the call.
\<close>

theorem lockstep_after_completed_call:
  "lockstep StockPortfolio_init \<and>
   (refresh prov today (run StockPortfolio_init calls) = (self1, None) \<longrightarrow>
      length (stock_objs self1) = length (stocks self1) \<and>
      (\<forall>i < length (stocks self1).
         computed_from (stock_objs self1 ! i) (stocks self1 ! i) \<and>
         get_stock_info prov today (stock_objs self1 ! i) = Inr (stocks self1 ! i))) \<and>
   (lockstep self \<and>
    add_stock validate prov today self name country purchased shares cost = (self2, None) \<longrightarrow>
      lockstep self2 \<and>
      length (stock_objs self2) = length (stocks self2) \<and>
      (\<forall>i < length (stocks self2). computed_from (stock_objs self2 ! i) (stocks self2 ! i)))"
proof -
  have init: "lockstep StockPortfolio_init"
    by (simp add: lockstep_def StockPortfolio_init_def)
  have refr: "length (stock_objs self1) = length (stocks self1) \<and>
      (\<forall>i < length (stocks self1).
         computed_from (stock_objs self1 ! i) (stocks self1 ! i) \<and>
         get_stock_info prov today (stock_objs self1 ! i) = Inr (stocks self1 ! i))"
    if ok: "refresh prov today (run StockPortfolio_init calls) = (self1, None)"
  proof -
    have "stock_objs (run StockPortfolio_init calls) \<noteq> [] \<or> stocks (run StockPortfolio_init calls) = []"
      using run_rows_without_holdings by blast
    from refresh_lockstep [OF ok this]
    have l: "lockstep self1"
      and m: "map (get_stock_info prov today) (stock_objs self1) = map Inr (stocks self1)"
      by simp_all
    have "get_stock_info prov today (stock_objs self1 ! i) = Inr (stocks self1 ! i)"
      if "i < length (stocks self1)" for i
    proof -
      from l that have i: "i < length (stock_objs self1)"
        by (simp add: lockstep_iff)
      have "map (get_stock_info prov today) (stock_objs self1) ! i = map Inr (stocks self1) ! i"
        using m by simp
      with i that show ?thesis by simp
    qed
    with l show ?thesis
      by (simp add: lockstep_iff)
  qed
  have add: "lockstep self2 \<and>
      length (stock_objs self2) = length (stocks self2) \<and>
      (\<forall>i < length (stocks self2). computed_from (stock_objs self2 ! i) (stocks self2 ! i))"
    if "lockstep self"
      and "add_stock validate prov today self name country purchased shares cost = (self2, None)"
    using add_stock_lockstep [OF that(2) that(1)] by (simp add: lockstep_iff)
  from init refr add show ?thesis
    by blast
qed

theorem lockstep_after_completed_call_witness:
  "refresh acme_provider ''05/11/2026'' (run StockPortfolio_init [add_acme acme_provider]) =
     (acme_portfolio, None) \<and>
   add_stock acme_validate acme_provider ''04/11/2026'' StockPortfolio_init
       ''ACME'' ''US'' ''01/01/2020'' 10 (Finite 100) = (acme_portfolio, None) \<and>
   lockstep acme_portfolio \<and>
   get_stock_info acme_provider ''05/11/2026'' (stock_objs acme_portfolio ! 0) =
     Inr (stocks acme_portfolio ! 0)"
proof -
  have a: "refresh acme_provider ''05/11/2026'' (run StockPortfolio_init [add_acme acme_provider]) =
     (acme_portfolio, None)"
    by (simp add: run_add_acme [simplified] refresh_eq get_stock_info_acme acme_portfolio_def)
  have b: "add_stock acme_validate acme_provider ''04/11/2026'' StockPortfolio_init
       ''ACME'' ''US'' ''01/01/2020'' 10 (Finite 100) = (acme_portfolio, None)"
    by (simp add: add_stock_cases acme_validate_acme valid_acme get_stock_info_acme
        StockPortfolio_init_def acme_portfolio_def)
  have c: "length (stocks acme_portfolio) = 1"
    by (simp add: acme_portfolio_def)
  from lockstep_after_completed_call
         [where prov = acme_provider and today = "''05/11/2026''"
            and calls = "[add_acme acme_provider]" and ?self1.0 = acme_portfolio]
       a c
  have r: "get_stock_info acme_provider ''05/11/2026'' (stock_objs acme_portfolio ! 0) =
     Inr (stocks acme_portfolio ! 0)"
    by simp
  from lockstep_after_completed_call
         [where self = StockPortfolio_init and validate = acme_validate and prov = acme_provider
            and today = "''04/11/2026''" and name = "''ACME''" and country = "''US''"
            and purchased = "''01/01/2020''" and shares = 10 and cost = "Finite 100"
            and ?self2.0 = acme_portfolio]
       b
  have l: "lockstep acme_portfolio"
    by simp
  from a b r l show ?thesis
    by simp
qed

text \<open>
  Claim C5.  After a sequence of \<open>add_stock\<close> calls on a new portfolio, each of which
  returns normally, there are as many rows as calls, and the row at index \<open>i\<close> is the
  row that call \<open>i\<close> computed.
\<close>

theorem successful_adds_rows_in_call_order:
  assumes "\<forall>c \<in> set calls. is_add_stock c"
    and "\<forall>r \<in> set (outcomes StockPortfolio_init calls). r = None"
  shows "length (stocks (run StockPortfolio_init calls)) = length calls \<and>
         (\<forall>i < length calls. call_row (calls ! i) = Some (stocks (run StockPortfolio_init calls) ! i))"
proof -
  from run_adds_rows [OF assms]
  have m: "map Some (stocks (run StockPortfolio_init calls)) = map call_row calls"
    by (simp add: StockPortfolio_init_def)
  have len: "length (stocks (run StockPortfolio_init calls)) = length calls"
    using arg_cong [OF m, of length] by simp
  have "call_row (calls ! i) = Some (stocks (run StockPortfolio_init calls) ! i)"
    if "i < length calls" for i
  proof -
    have "map call_row calls ! i = map Some (stocks (run StockPortfolio_init calls)) ! i"
      using m by simp
    with that len show ?thesis by simp
  qed
  with len show ?thesis by blast
qed

theorem successful_adds_rows_in_call_order_witness:
  "outcomes StockPortfolio_init
     [add_acme acme_provider,
      AddStock acme_validate acme_provider ''05/11/2026'' ''ACME'' ''US'' ''02/03/2021'' 3 (Finite 120)] =
     [None, None] \<and>
   length (stocks (run StockPortfolio_init
     [add_acme acme_provider,
      AddStock acme_validate acme_provider ''05/11/2026'' ''ACME'' ''US'' ''02/03/2021'' 3 (Finite 120)])) = 2 \<and>
   call_row (add_acme acme_provider) = Some acme_row \<and>
   stocks (run StockPortfolio_init
     [add_acme acme_provider,
      AddStock acme_validate acme_provider ''05/11/2026'' ''ACME'' ''US'' ''02/03/2021'' 3 (Finite 120)]) ! 0 =
     acme_row"
proof -
  let ?calls = "[add_acme acme_provider,
      AddStock acme_validate acme_provider ''05/11/2026'' ''ACME'' ''US'' ''02/03/2021'' 3 (Finite 120)]"
  have o: "outcomes StockPortfolio_init ?calls = [None, None]"
    by (simp add: add_acme_def add_stock_def Stock_def acme_validate_def get_stock_info_def
        acme_provider_def acme_series_def current_price_def gross_150_10 gross_150_3 Let_def)
  have a: "\<forall>c \<in> set ?calls. is_add_stock c"
    by (simp add: add_acme_def)
  have b: "\<forall>r \<in> set (outcomes StockPortfolio_init ?calls). r = None"
    unfolding o by simp
  have r: "call_row (add_acme acme_provider) = Some acme_row"
    by (simp add: add_acme_def acme_validate_acme valid_acme get_stock_info_acme)
  note t = successful_adds_rows_in_call_order [OF a b]
  have z: "0 < length ?calls"
    by simp
  from t have len: "length (stocks (run StockPortfolio_init ?calls)) = length ?calls"
    by (rule conjunct1)
  from t [THEN conjunct2, rule_format, OF z] r
  have first: "stocks (run StockPortfolio_init ?calls) ! 0 = acme_row"
    by simp
  from o len r first show ?thesis
    by simp
qed

section \<open>The new portfolio and its first frame\<close>

text \<open>
  Claim C10, as stated, fails: after an \<open>add_stock\<close> that raised from the fetch, a
  \<open>refresh\<close> that returns normally builds the frame, although no \<open>add_stock\<close> call has
  succeeded.
\<close>

theorem refresh_after_failed_add_builds_frame:
  "outcomes StockPortfolio_init [add_acme down_provider, Refresh acme_provider ''05/11/2026''] =
     [Some (ConnectionError ''no connection''), None] \<and>
   data (run StockPortfolio_init [add_acme down_provider, Refresh acme_provider ''05/11/2026'']) =
     Some [acme_row]"
  by (simp add: step_add_acme get_stock_info_down refresh_acme_portfolio StockPortfolio_init_def)

text \<open>
  Claim C10, amended.  A new portfolio has no holdings, no rows, and \<open>None\<close> (not an
  empty frame) as \<open>data\<close>.  Over any sequence of \<open>add_stock\<close> and \<open>refresh\<close> calls,
  \<open>data\<close> stays \<open>None\<close> until the first call that returns normally with a holding on
  the list: an \<open>add_stock\<close> that succeeds, or a \<open>refresh\<close> on a non-empty list of
  holdings; that call sets \<open>data\<close> to the frame of the rows.
\<close>

theorem snapshot_None_until_first_frame:
  "stock_objs StockPortfolio_init = [] \<and>
   stocks StockPortfolio_init = [] \<and>
   data StockPortfolio_init = None \<and>
   data StockPortfolio_init \<noteq> Some [] \<and>
   (quiet StockPortfolio_init calls \<longrightarrow> data (run StockPortfolio_init calls) = None) \<and>
   (builds_snapshot (run StockPortfolio_init calls) c \<longrightarrow>
      data (fst (step (run StockPortfolio_init calls) c)) =
        Some (stocks (fst (step (run StockPortfolio_init calls) c))))"
  using quiet_run_data [of StockPortfolio_init calls]
    step_builds_snapshot [of "run StockPortfolio_init calls" c]
  by (simp add: StockPortfolio_init_def)

theorem snapshot_None_until_first_frame_witness:
  "quiet StockPortfolio_init
     [AddStock acme_validate acme_provider ''04/11/2026'' ''EMCA'' ''US'' ''01/01/2020'' 10 (Finite 100),
      Refresh acme_provider ''04/11/2026'',
      add_acme down_provider] \<and>
   data (run StockPortfolio_init
     [AddStock acme_validate acme_provider ''04/11/2026'' ''EMCA'' ''US'' ''01/01/2020'' 10 (Finite 100),
      Refresh acme_provider ''04/11/2026'',
      add_acme down_provider]) = None \<and>
   builds_snapshot (run StockPortfolio_init []) (add_acme acme_provider) \<and>
   data (fst (step (run StockPortfolio_init []) (add_acme acme_provider))) = Some [acme_row]"
proof -
  let ?calls = "[AddStock acme_validate acme_provider ''04/11/2026'' ''EMCA'' ''US'' ''01/01/2020'' 10 (Finite 100),
      Refresh acme_provider ''04/11/2026'',
      add_acme down_provider]"
  have e: "add_stock acme_validate acme_provider ''04/11/2026'' StockPortfolio_init
             ''EMCA'' ''US'' ''01/01/2020'' 10 (Finite 100) =
           (StockPortfolio_init, Some (ValueError ''ERROR [0001]: The introduced Stock is not valid.''))"
    by (simp add: add_stock_def Stock_def acme_validate_def)
  have i: "stock_objs StockPortfolio_init = []"
    by (simp add: StockPortfolio_init_def)
  have r: "refresh acme_provider ''04/11/2026'' StockPortfolio_init = (StockPortfolio_init, None)"
    by (simp add: refresh_eq i)
  have q: "quiet StockPortfolio_init ?calls"
    by (simp add: e i r) (simp add: add_acme_def add_stock_cases acme_validate_acme valid_acme
        get_stock_info_down)
  have b: "builds_snapshot (run StockPortfolio_init []) (add_acme acme_provider)"
    by (simp add: add_acme_def add_stock_cases acme_validate_acme valid_acme get_stock_info_acme)
  have s: "stocks (fst (step (run StockPortfolio_init []) (add_acme acme_provider))) = [acme_row]"
    by (simp add: step_add_acme get_stock_info_acme StockPortfolio_init_def)
  from snapshot_None_until_first_frame [of ?calls] q
  have d: "data (run StockPortfolio_init ?calls) = None"
    by blast
  from snapshot_None_until_first_frame [of "[]" "add_acme acme_provider"] b s
  have f: "data (fst (step (run StockPortfolio_init []) (add_acme acme_provider))) = Some [acme_row]"
    by simp
  from q d b f show ?thesis
    by blast
qed

end
